theory Spec2Isabelle
  imports Main "HOL-Library.Sublist"
begin

section \<open>The host's calendar: JavaScript \<open>Date\<close>\<close>

text \<open>
  The plugin's calendar arithmetic is done by the host's \<open>Date\<close> objects. A \<open>Date\<close> holds a
  time value in milliseconds since the epoch, at most \<open>8.64 * 10^15\<close> in absolute value, or
  is an Invalid Date whose getters all return \<open>NaN\<close>. The plugin builds dates from local
  fields and reads local fields back; the model takes the local time zone to be UTC, so
  that the two conversions are the identity, and writes a getter's \<open>NaN\<close> as \<open>None\<close>. The
  day arithmetic follows the definitions of the ECMAScript language specification
  (\<open>DayFromYear\<close>, \<open>YearFromTime\<close>, \<open>MonthFromTime\<close>, \<open>DateFromTime\<close>, \<open>WeekDay\<close>,
  \<open>MakeDay\<close>, \<open>TimeClip\<close>).
\<close>

datatype Date = TimeValue int | InvalidDate

definition msPerDay :: int where
  "msPerDay = 86400000"

definition maxTimeValue :: int where
  "maxTimeValue = 8640000000000000"

definition timeClip :: "int \<Rightarrow> Date" where
  "timeClip t = (if \<bar>t\<bar> \<le> maxTimeValue then TimeValue t else InvalidDate)"

definition daysInYear :: "int \<Rightarrow> int" where
  "daysInYear y =
     (if y mod 4 \<noteq> 0 then 365
      else if y mod 100 \<noteq> 0 then 366
      else if y mod 400 \<noteq> 0 then 365
      else 366)"

definition inLeapYear :: "int \<Rightarrow> bool" where
  "inLeapYear y = (daysInYear y = 366)"

definition dayFromYear :: "int \<Rightarrow> int" where
  "dayFromYear y =
     365 * (y - 1970) + (y - 1969) div 4 - (y - 1901) div 100 + (y - 1601) div 400"

text \<open>
  \<open>YearFromTime\<close> is specified as the largest year whose first day is not after the given
  day. The executable form estimates the year from the mean length of a Gregorian year and
  corrects the estimate by one year at most; \<open>yearFromDay_lower\<close>, \<open>yearFromDay_upper\<close> and
  \<open>yearFromDay_unique\<close> below show that it is the specified year.
\<close>

definition yearFromDay :: "int \<Rightarrow> int" where
  "yearFromDay d =
     (let y = 1970 + (400 * d) div 146097 in
      if d < dayFromYear y then y - 1
      else if dayFromYear (y + 1) \<le> d then y + 1
      else y)"

definition dayWithinYear :: "int \<Rightarrow> int" where
  "dayWithinYear d = d - dayFromYear (yearFromDay d)"

definition leapDays :: "int \<Rightarrow> int" where
  "leapDays y = (if inLeapYear y then 1 else 0)"

text \<open>The number of days of the year \<open>y\<close> before its month \<open>m\<close> (0 is January).\<close>

definition daysBeforeMonth :: "int \<Rightarrow> int \<Rightarrow> int" where
  "daysBeforeMonth y m =
     (if m = 0 then 0
      else if m = 1 then 31
      else if m = 2 then 59 + leapDays y
      else if m = 3 then 90 + leapDays y
      else if m = 4 then 120 + leapDays y
      else if m = 5 then 151 + leapDays y
      else if m = 6 then 181 + leapDays y
      else if m = 7 then 212 + leapDays y
      else if m = 8 then 243 + leapDays y
      else if m = 9 then 273 + leapDays y
      else if m = 10 then 304 + leapDays y
      else 334 + leapDays y)"

text \<open>The length of a month by the Gregorian rule (month 0 is January).\<close>

definition monthLength :: "int \<Rightarrow> int \<Rightarrow> int" where
  "monthLength y m =
     (if m = 1 then 28 + leapDays y
      else if m = 3 \<or> m = 5 \<or> m = 8 \<or> m = 10 then 30
      else 31)"

definition monthFromDay :: "int \<Rightarrow> int" where
  "monthFromDay d =
     (let y = yearFromDay d; w = dayWithinYear d in
      if w < daysBeforeMonth y 1 then 0
      else if w < daysBeforeMonth y 2 then 1
      else if w < daysBeforeMonth y 3 then 2
      else if w < daysBeforeMonth y 4 then 3
      else if w < daysBeforeMonth y 5 then 4
      else if w < daysBeforeMonth y 6 then 5
      else if w < daysBeforeMonth y 7 then 6
      else if w < daysBeforeMonth y 8 then 7
      else if w < daysBeforeMonth y 9 then 8
      else if w < daysBeforeMonth y 10 then 9
      else if w < daysBeforeMonth y 11 then 10
      else 11)"

definition dateFromDay :: "int \<Rightarrow> int" where
  "dateFromDay d = dayWithinYear d - daysBeforeMonth (yearFromDay d) (monthFromDay d) + 1"

definition weekDay :: "int \<Rightarrow> int" where
  "weekDay d = (d + 4) mod 7"

definition makeDay :: "int \<Rightarrow> int \<Rightarrow> int \<Rightarrow> int" where
  "makeDay year month date =
     (let ym = year + month div 12; mn = month mod 12
      in dayFromYear ym + daysBeforeMonth ym mn + date - 1)"

text \<open>
  \<open>new Date(year, month, date)\<close>: a year from 0 to 99 stands for 1900 + year, month and date
  overflow into the neighbouring months and years, the time of day is midnight, and a time
  value out of range gives an Invalid Date.
\<close>

definition newDate :: "int \<Rightarrow> int \<Rightarrow> int \<Rightarrow> Date" where
  "newDate year month date =
     (let yr = (if 0 \<le> year \<and> year \<le> 99 then 1900 + year else year)
      in timeClip (makeDay yr month date * msPerDay))"

text \<open>\<open>new Date(ms)\<close>, for a time stamp in milliseconds.\<close>

definition newDateOfTime :: "int \<Rightarrow> Date" where
  "newDateOfTime t = timeClip t"

fun dayOf :: "Date \<Rightarrow> int option" where
  "dayOf (TimeValue t) = Some (t div msPerDay)"
| "dayOf InvalidDate = None"

definition getFullYear :: "Date \<Rightarrow> int option" where
  "getFullYear d = map_option yearFromDay (dayOf d)"

definition getMonth :: "Date \<Rightarrow> int option" where
  "getMonth d = map_option monthFromDay (dayOf d)"

definition getDate :: "Date \<Rightarrow> int option" where
  "getDate d = map_option dateFromDay (dayOf d)"

definition getDay :: "Date \<Rightarrow> int option" where
  "getDay d = map_option weekDay (dayOf d)"

section \<open>Numbers as strings\<close>

text \<open>
  \<open>String(n)\<close> for an integral number below \<open>10^21\<close> in absolute value is its decimal
  numeral, with a minus sign when negative; \<open>NaN\<close> prints as \<open>NaN\<close>.
  \<open>s.padStart(n, "0")\<close> puts zeros in front of a string shorter than \<open>n\<close>.
\<close>

definition digitChar :: "nat \<Rightarrow> char" where
  "digitChar n = ''0123456789'' ! n"

fun digitsOf :: "nat \<Rightarrow> string" where
  "digitsOf n = (if n < 10 then [digitChar n] else digitsOf (n div 10) @ [digitChar (n mod 10)])"

declare digitsOf.simps [simp del]

definition numToString :: "int option \<Rightarrow> string" where
  "numToString n =
     (case n of
        None \<Rightarrow> ''NaN''
      | Some i \<Rightarrow> if i < 0 then CHR ''-'' # digitsOf (nat (- i)) else digitsOf (nat i))"

definition padStart :: "nat \<Rightarrow> char \<Rightarrow> string \<Rightarrow> string" where
  "padStart n c s = replicate (n - length s) c @ s"

section \<open>Notes, settings and the host\<close>

text \<open>
  A note is the host's \<open>TFile\<close>: its path, its base name (the file name without folder and
  extension) and its creation time stamp. A frontmatter value is a string, a date, or
  something else, of which only the truthiness matters.
\<close>

record TFile =
  path :: string
  basename :: string
  ctime :: int

datatype FmValue = FmString string | FmDate Date | FmOther bool

fun truthy :: "FmValue \<Rightarrow> bool" where
  "truthy (FmString s) = (s \<noteq> [])"
| "truthy (FmDate d) = True"
| "truthy (FmOther b) = b"

type_synonym Frontmatter = "string \<rightharpoonup> FmValue"

record CalendarEvent =
  title :: string
  eventFile :: TFile
  startDate :: Date
  endDate :: "Date option"
  color :: "string option"

text \<open>
  The settings record. The three scale factors and their defaults are host numbers; their
  type is left as a parameter, no function below computes with them.
\<close>

record 'n LinearCalendarSettings =
  dailyNotesFolder :: string
  dailyNoteFormat :: string
  dateFields :: "string list"
  showFileCreationDates :: bool
  year :: int
  weekdayLabels :: "string list"
  monthLabels :: "string list"
  scaleX :: 'n
  scaleY :: 'n
  fontScale :: 'n
  defaultScaleX :: 'n
  defaultScaleY :: 'n
  defaultFontScale :: 'n

text \<open>
  What the plugin takes from the host application and from the \<open>moment\<close> library, as
  parameters: the list of notes, the frontmatter of a note (\<open>None\<close> when the note has no
  cache entry or no frontmatter), the strict parser \<open>moment(s, format, true)\<close> and the lenient
  parser \<open>moment(s)\<close>; a parser returns \<open>None\<close> when the result is not valid, the date of
  \<open>toDate()\<close> otherwise.
\<close>

record Host =
  getMarkdownFiles :: "TFile list"
  getFrontmatter :: "TFile \<Rightarrow> Frontmatter option"
  momentStrict :: "string \<Rightarrow> string \<Rightarrow> Date option"
  momentLenient :: "string \<Rightarrow> Date option"

section \<open>The date extractor\<close>

definition parseDailyNoteDate :: "Host \<Rightarrow> 'n LinearCalendarSettings \<Rightarrow> TFile \<Rightarrow> Date option" where
  "parseDailyNoteDate host settings f =
     (let folder = dailyNotesFolder settings in
      if folder \<noteq> [] \<and> \<not> prefix folder (path f) then None
      else momentStrict host (basename f) (dailyNoteFormat settings))"

fun parseDate :: "Host \<Rightarrow> FmValue \<Rightarrow> Date option" where
  "parseDate host (FmString s) = momentLenient host s"
| "parseDate host (FmDate d) = Some d"
| "parseDate host (FmOther b) = None"

text \<open>The dates that one configured field adds to the result: one or none.\<close>

definition fieldDates :: "Host \<Rightarrow> Frontmatter \<Rightarrow> string \<Rightarrow> Date list" where
  "fieldDates host fm field =
     (case fm field of
        None \<Rightarrow> []
      | Some v \<Rightarrow>
          if truthy v then (case parseDate host v of Some d \<Rightarrow> [d] | None \<Rightarrow> []) else [])"

definition frontmatterDates :: "Host \<Rightarrow> 'n LinearCalendarSettings \<Rightarrow> TFile \<Rightarrow> Date list" where
  "frontmatterDates host settings f =
     (case getFrontmatter host f of
        None \<Rightarrow> []
      | Some fm \<Rightarrow> concat (map (fieldDates host fm) (dateFields settings)))"

definition dailyDates :: "Host \<Rightarrow> 'n LinearCalendarSettings \<Rightarrow> TFile \<Rightarrow> Date list" where
  "dailyDates host settings f =
     (case parseDailyNoteDate host settings f of Some d \<Rightarrow> [d] | None \<Rightarrow> [])"

definition extractDatesFromFile :: "Host \<Rightarrow> 'n LinearCalendarSettings \<Rightarrow> TFile \<Rightarrow> Date list" where
  "extractDatesFromFile host settings f =
     (let dates = dailyDates host settings f @ frontmatterDates host settings f in
      if showFileCreationDates settings \<and> length dates = 0
      then dates @ [newDateOfTime (ctime f)]
      else dates)"

section \<open>The event index\<close>

definition dateKey :: "Date \<Rightarrow> string" where
  "dateKey date =
     numToString (getFullYear date) @ ''-''
     @ padStart 2 CHR ''0'' (numToString (map_option (\<lambda>m. m + 1) (getMonth date))) @ ''-''
     @ padStart 2 CHR ''0'' (numToString (getDate date))"

type_synonym EventIndex = "string \<rightharpoonup> CalendarEvent list"

definition newEvent :: "TFile \<Rightarrow> Date \<Rightarrow> CalendarEvent" where
  "newEvent f date =
     \<lparr>title = basename f, eventFile = f, startDate = date, endDate = None, color = None\<rparr>"

text \<open>One turn of the inner loop: create the sequence of the key on first use, then append.\<close>

definition addEvent :: "TFile \<Rightarrow> EventIndex \<Rightarrow> Date \<Rightarrow> EventIndex" where
  "addEvent f events date =
     (let key = dateKey date;
          events1 = (if events key = None then events(key \<mapsto> []) else events)
      in case events1 key of
           None \<Rightarrow> events1
         | Some evs \<Rightarrow> events1(key \<mapsto> evs @ [newEvent f date]))"

definition addFile :: "Host \<Rightarrow> 'n LinearCalendarSettings \<Rightarrow> EventIndex \<Rightarrow> TFile \<Rightarrow> EventIndex" where
  "addFile host settings events f = foldl (addEvent f) events (extractDatesFromFile host settings f)"

definition loadEvents :: "Host \<Rightarrow> 'n LinearCalendarSettings \<Rightarrow> EventIndex" where
  "loadEvents host settings = foldl (addFile host settings) Map.empty (getMarkdownFiles host)"

section \<open>The grid layout\<close>

text \<open>
  Host numbers that may be \<open>NaN\<close> are \<open>int option\<close>; a sum with \<open>NaN\<close> is \<open>NaN\<close>.
\<close>

fun addNum :: "int option \<Rightarrow> int option \<Rightarrow> int option" where
  "addNum (Some a) (Some b) = Some (a + b)"
| "addNum _ _ = None"

text \<open>
  The local values \<open>firstDay\<close>, \<open>daysInMonth\<close>, \<open>offset\<close> and \<open>endColumn\<close>, computed by the
  same expressions in \<open>calculateMaxColumns\<close> and in \<open>renderMonth\<close>.
\<close>

definition firstDay :: "int \<Rightarrow> int \<Rightarrow> Date" where
  "firstDay yr month = newDate yr month 1"

definition daysInMonth :: "int \<Rightarrow> int \<Rightarrow> int option" where
  "daysInMonth yr month = getDate (newDate yr (month + 1) 0)"

definition offset :: "int \<Rightarrow> int \<Rightarrow> int option" where
  "offset yr month = map_option (\<lambda>w. (w + 6) mod 7) (getDay (firstDay yr month))"

definition endColumn :: "int \<Rightarrow> int \<Rightarrow> int option" where
  "endColumn yr month = addNum (offset yr month) (daysInMonth yr month)"

text \<open>
  The loop of \<open>calculateMaxColumns\<close>, from a month on. The running maximum starts at 0 and
  only takes values that compared greater, so it is never \<open>NaN\<close>; the comparison
  \<open>endColumn > maxEndColumn\<close> is false when \<open>endColumn\<close> is \<open>NaN\<close>.
\<close>

function maxColumnsFrom :: "int \<Rightarrow> int \<Rightarrow> int \<Rightarrow> int" where
  "maxColumnsFrom yr month maxEndColumn =
     (if month < 12
      then maxColumnsFrom yr (month + 1)
             (case endColumn yr month of
                None \<Rightarrow> maxEndColumn
              | Some e \<Rightarrow> if e > maxEndColumn then e else maxEndColumn)
      else maxEndColumn)"
  by pat_completeness auto
termination
  by (relation "measure (\<lambda>(yr, month, maxEndColumn). nat (12 - month))") auto

declare maxColumnsFrom.simps [simp del]

definition calculateMaxColumns :: "int \<Rightarrow> int" where
  "calculateMaxColumns yr = maxColumnsFrom yr 0 0"

section \<open>A month's row\<close>

text \<open>
  The children of a day cell's events container: a pill that shows the start of a note's
  title and opens the note, or the marker that counts the events not shown.
\<close>

datatype EventsChild = EventEl string TFile | MoreEl string

definition renderDayEvents :: "CalendarEvent list \<Rightarrow> EventsChild list option" where
  "renderDayEvents dayEvents =
     (if length dayEvents > 0
      then Some
        (map (\<lambda>event. EventEl (take 10 (title event)) (eventFile event)) (take 3 dayEvents)
         @ (if length dayEvents > 3
            then [MoreEl (CHR ''+'' # numToString (Some (int (length dayEvents) - 3)))]
            else []))
      else None)"

text \<open>
  A cell of the row is an empty cell, or a day cell with its date key, its day number and
  its events container when it has one; both carry the weekend mark of their column. The
  other classes and attributes of a cell, among them the mark of today, are left out.
\<close>

datatype Cell = EmptyCell bool | DayCell string string bool "EventsChild list option"

definition isWeekend :: "int option \<Rightarrow> bool" where
  "isWeekend col = (case col of None \<Rightarrow> False | Some c \<Rightarrow> c mod 7 = 5 \<or> c mod 7 = 6)"

definition dayEventsOf :: "EventIndex \<Rightarrow> string \<Rightarrow> CalendarEvent list" where
  "dayEventsOf events key = (case events key of None \<Rightarrow> [] | Some evs \<Rightarrow> evs)"

definition dayCell :: "EventIndex \<Rightarrow> int \<Rightarrow> int \<Rightarrow> int \<Rightarrow> Cell" where
  "dayCell events yr month day =
     (let col = addNum (offset yr month) (Some (day - 1));
          key = dateKey (newDate yr month day)
      in DayCell key (numToString (Some day)) (isWeekend col)
           (renderDayEvents (dayEventsOf events key)))"

text \<open>
  The three loops of \<open>renderMonth\<close>; a loop whose bound is \<open>NaN\<close> does not run.
\<close>

definition renderMonth :: "EventIndex \<Rightarrow> int \<Rightarrow> int \<Rightarrow> int \<Rightarrow> Cell list" where
  "renderMonth events yr month maxColumns =
     (case offset yr month of
        None \<Rightarrow> []
      | Some n \<Rightarrow> map (\<lambda>col. EmptyCell (isWeekend (Some col))) [0..n - 1])
     @ (case daysInMonth yr month of
          None \<Rightarrow> []
        | Some k \<Rightarrow> map (dayCell events yr month) [1..k])
     @ (case addNum (offset yr month) (daysInMonth yr month) of
          None \<Rightarrow> []
        | Some totalCells \<Rightarrow>
            map (\<lambda>col. EmptyCell (isWeekend (Some col))) [totalCells..maxColumns - 1])"

section \<open>The label settings\<close>

text \<open>
  \<open>value.split(",")\<close>, \<open>s.trim()\<close> over the white space and line terminators among the
  characters of the model, and the two change handlers of the settings tab.
\<close>

fun split_comma :: "string \<Rightarrow> string list" where
  "split_comma [] = [[]]"
| "split_comma (c # cs) =
     (if c = CHR '','' then [] # split_comma cs
      else (case split_comma cs of
              [] \<Rightarrow> [[c]]
            | w # ws \<Rightarrow> (c # w) # ws))"

definition isWhiteSpace :: "char \<Rightarrow> bool" where
  "isWhiteSpace c = (of_char c \<in> {9, 10, 11, 12, 13, 32, 160 :: nat})"

definition trim :: "string \<Rightarrow> string" where
  "trim s = rev (dropWhile isWhiteSpace (rev (dropWhile isWhiteSpace s)))"

definition parseLabels :: "string \<Rightarrow> string list" where
  "parseLabels v = filter (\<lambda>s. length s > 0) (map trim (split_comma v))"

definition onWeekdayLabelsChange ::
  "'n LinearCalendarSettings \<Rightarrow> string \<Rightarrow> 'n LinearCalendarSettings" where
  "onWeekdayLabelsChange settings v =
     (let labels = parseLabels v in
      if length labels = 7 then settings\<lparr>weekdayLabels := labels\<rparr> else settings)"

definition onMonthLabelsChange ::
  "'n LinearCalendarSettings \<Rightarrow> string \<Rightarrow> 'n LinearCalendarSettings" where
  "onMonthLabelsChange settings v =
     (let labels = parseLabels v in
      if length labels = 12 then settings\<lparr>monthLabels := labels\<rparr> else settings)"

section \<open>The strict parser of moment\<close>

text \<open>
  Modelled from the spec: the strict parser \<open>moment(s, format, true)\<close> of the moment library,
  which the plugin calls and the repository does not contain. The spec says that the base
  name is parsed against the date-format pattern with strict parsing, no partial or lenient
  match accepted. The model covers the formats made of the tokens \<open>YYYY\<close> (four digits), \<open>MM\<close>
  and \<open>DD\<close> (two digits each) and of separator characters that are neither letters nor
  brackets. The input has to match the format from its first to its last character and to
  name a day that exists; a month or a day that the format leaves out is the first, and the
  date is the local midnight of the day. A format with another letter or a bracket, or
  without a year, is outside the model, which gives no date for it.
\<close>

datatype FormatItem = YearToken | MonthToken | DayToken | Separator char

definition isFormatLetter :: "char \<Rightarrow> bool" where
  "isFormatLetter c =
     (let n = (of_char c :: nat)
      in (65 \<le> n \<and> n \<le> 90) \<or> (97 \<le> n \<and> n \<le> 122) \<or> n = 91 \<or> n = 93)"

function formatItems :: "string \<Rightarrow> FormatItem list option" where
  "formatItems fmt =
     (if fmt = [] then Some []
      else if take 4 fmt = ''YYYY''
        then map_option (Cons YearToken) (formatItems (drop 4 fmt))
      else if take 2 fmt = ''MM''
        then map_option (Cons MonthToken) (formatItems (drop 2 fmt))
      else if take 2 fmt = ''DD''
        then map_option (Cons DayToken) (formatItems (drop 2 fmt))
      else if isFormatLetter (hd fmt) then None
      else map_option (Cons (Separator (hd fmt))) (formatItems (tl fmt)))"
  by pat_completeness auto
termination
  by (relation "measure length") (auto simp: neq_Nil_conv)

declare formatItems.simps [simp del]

definition digitValue :: "char \<Rightarrow> int option" where
  "digitValue c =
     (if (48::nat) \<le> of_char c \<and> of_char c \<le> (57::nat)
      then Some (int (of_char c) - 48)
      else None)"

definition numberOf :: "string \<Rightarrow> int option" where
  "numberOf s =
     (if s \<noteq> [] \<and> list_all (\<lambda>c. digitValue c \<noteq> None) s
      then Some (foldl (\<lambda>n c. 10 * n + the (digitValue c)) 0 s)
      else None)"

definition digitsAhead :: "nat \<Rightarrow> string \<Rightarrow> int option" where
  "digitsAhead k s = (if k \<le> length s then numberOf (take k s) else None)"

text \<open>The fields read so far are the year, the month and the day.\<close>

fun matchItems ::
  "FormatItem list \<Rightarrow> string \<Rightarrow> int option \<times> int option \<times> int option
    \<Rightarrow> (int option \<times> int option \<times> int option) option" where
  "matchItems [] s read = (if s = [] then Some read else None)"
| "matchItems (YearToken # items) s (y, m, d) =
     (case digitsAhead 4 s of
        None \<Rightarrow> None
      | Some n \<Rightarrow> matchItems items (drop 4 s) (Some n, m, d))"
| "matchItems (MonthToken # items) s (y, m, d) =
     (case digitsAhead 2 s of
        None \<Rightarrow> None
      | Some n \<Rightarrow> matchItems items (drop 2 s) (y, Some n, d))"
| "matchItems (DayToken # items) s (y, m, d) =
     (case digitsAhead 2 s of
        None \<Rightarrow> None
      | Some n \<Rightarrow> matchItems items (drop 2 s) (y, m, Some n))"
| "matchItems (Separator c # items) s read =
     (case s of
        [] \<Rightarrow> None
      | c' # rest \<Rightarrow> if c' = c then matchItems items rest read else None)"

definition momentStrictModel :: "string \<Rightarrow> string \<Rightarrow> Date option" where
  "momentStrictModel s fmt =
     (case formatItems fmt of
        None \<Rightarrow> None
      | Some items \<Rightarrow>
          (case matchItems items s (None, None, None) of
             Some (Some y, m, d) \<Rightarrow>
               (let mo = (case m of None \<Rightarrow> 1 | Some v \<Rightarrow> v);
                    dd = (case d of None \<Rightarrow> 1 | Some v \<Rightarrow> v)
                in if 1 \<le> mo \<and> mo \<le> 12 \<and> 1 \<le> dd \<and> dd \<le> monthLength y (mo - 1)
                   then Some (timeClip (makeDay y (mo - 1) dd * msPerDay))
                   else None)
           | _ \<Rightarrow> None))"

section \<open>A sample host\<close>

text \<open>
  To run the model on concrete notes: a host whose strict parser is the model above, and
  whose lenient parser reads the one format \<open>YYYY-MM-DD\<close>.
\<close>

definition sampleHost :: "TFile list \<Rightarrow> (TFile \<Rightarrow> Frontmatter option) \<Rightarrow> Host" where
  "sampleHost files fm =
     \<lparr>getMarkdownFiles = files,
      getFrontmatter = fm,
      momentStrict = momentStrictModel,
      momentLenient = (\<lambda>s. momentStrictModel s ''YYYY-MM-DD'')\<rparr>"

definition sampleSettings :: "string \<Rightarrow> bool \<Rightarrow> unit LinearCalendarSettings" where
  "sampleSettings folder creation =
     \<lparr>dailyNotesFolder = folder,
      dailyNoteFormat = ''YYYY-MM-DD'',
      dateFields = [''date'', ''created'', ''due''],
      showFileCreationDates = creation,
      year = 2024,
      weekdayLabels = [''M'', ''T'', ''W'', ''T'', ''F'', ''S'', ''S''],
      monthLabels = [''Jan'', ''Feb'', ''Mar'', ''Apr'', ''May'', ''Jun'',
                     ''Jul'', ''Aug'', ''Sep'', ''Oct'', ''Nov'', ''Dec''],
      scaleX = (), scaleY = (), fontScale = (),
      defaultScaleX = (), defaultScaleY = (), defaultFontScale = ()\<rparr>"

text \<open>
  Four notes: a daily note, a note with two date fields that name the same day, a note
  with no date of its own, and a note with a long title.
\<close>

definition noteMeeting :: TFile where
  "noteMeeting =
     \<lparr>path = ''Projects/Quarterly planning.md'', basename = ''Quarterly planning'',
      ctime = 1700000000000\<rparr>"

definition noteDaily :: TFile where
  "noteDaily = \<lparr>path = ''Daily/2024-03-15.md'', basename = ''2024-03-15'', ctime = 1700000000000\<rparr>"

definition notePlan :: TFile where
  "notePlan = \<lparr>path = ''Projects/plan.md'', basename = ''plan'', ctime = 1700000000000\<rparr>"

definition noteIdea :: TFile where
  "noteIdea = \<lparr>path = ''Inbox/idea.md'', basename = ''idea'', ctime = 1700000000000\<rparr>"

definition planFrontmatter :: Frontmatter where
  "planFrontmatter = [''date'' \<mapsto> FmString ''2024-01-01'', ''due'' \<mapsto> FmString ''2024-01-01'']"

definition sampleFrontmatter :: "TFile \<Rightarrow> Frontmatter option" where
  "sampleFrontmatter f = (if f = notePlan then Some planFrontmatter else None)"

definition sampleVault :: Host where
  "sampleVault = sampleHost [noteDaily, notePlan, noteIdea] sampleFrontmatter"

section \<open>Notions used to state the properties\<close>

text \<open>A number below 100 written in exactly two decimal digits.\<close>

definition twoDigits :: "int \<Rightarrow> string" where
  "twoDigits n = [digitChar (nat n div 10), digitChar (nat n mod 10)]"

text \<open>The year that the host's \<open>Date\<close> constructor reads in a year argument.\<close>

definition hostYear :: "int \<Rightarrow> int" where
  "hostYear yr = (if 0 \<le> yr \<and> yr \<le> 99 then 1900 + yr else yr)"

definition fourDigits :: "string \<Rightarrow> bool" where
  "fourDigits s = (length s = 4 \<and> list_all (\<lambda>c. c \<in> set ''0123456789'') s)"

definition isEventEl :: "EventsChild \<Rightarrow> bool" where
  "isEventEl c = (case c of EventEl t f \<Rightarrow> True | MoreEl t \<Rightarrow> False)"

text \<open>
  The invariant of the event index: no key holds an empty sequence, and every event is
  stored under the key of its start date.
\<close>

definition wellKeyed :: "EventIndex \<Rightarrow> bool" where
  "wellKeyed events =
     (\<forall>K evs. events K = Some evs \<longrightarrow> evs \<noteq> [] \<and> (\<forall>e \<in> set evs. dateKey (startDate e) = K))"

section \<open>Facts about the calendar\<close>


lemma div_step:
  fixes a n :: int
  assumes "0 < n"
  shows "(a + 1) div n = a div n + (if (a + 1) mod n = 0 then 1 else 0)"
proof -
  define q where "q = a div n"
  define r where "r = a mod n"
  have e: "a = n * q + r" by (simp add: q_def r_def)
  have r: "0 \<le> r" "r < n" using assms by (simp_all add: r_def)
  show ?thesis
  proof (cases "r + 1 = n")
    case True
    have "a + 1 = n * (q + 1) + 0"
      using True e by (simp add: algebra_simps)
    then have "(a + 1) div n = q + 1" "(a + 1) mod n = 0"
      using assms int_div_pos_eq [of "a + 1" n "q + 1" 0] int_mod_pos_eq [of "a + 1" n "q + 1" 0]
      by simp_all
    then show ?thesis by (simp add: q_def)
  next
    case False
    have "a + 1 = n * q + (r + 1)"
      using e by simp
    then have "(a + 1) div n = q" "(a + 1) mod n = r + 1"
      using r False int_div_pos_eq [of "a + 1" n q "r + 1"]
        int_mod_pos_eq [of "a + 1" n q "r + 1"]
      by simp_all
    then show ?thesis using r by (simp add: q_def)
  qed
qed

lemma shift_mod: "((y::int) - k * n) mod n = y mod n"
  by (metis mod_mult_self1 mult_minus_left uminus_add_conv_diff add.commute)

lemma mod_100_4: "(y::int) mod 100 = 0 \<Longrightarrow> y mod 4 = 0"
  using mod_mod_cancel [of 4 100 y] by simp

lemma mod_400_100: "(y::int) mod 400 = 0 \<Longrightarrow> y mod 100 = 0"
  using mod_mod_cancel [of 100 400 y] by simp

lemma dayFromYear_Suc: "dayFromYear (y + 1) = dayFromYear y + daysInYear y"
proof -
  have m4: "(y - 1968) mod 4 = y mod 4" using shift_mod [of y 492 4] by simp
  have m100: "(y - 1900) mod 100 = y mod 100" using shift_mod [of y 19 100] by simp
  have m400: "(y - 1600) mod 400 = y mod 400" using shift_mod [of y 4 400] by simp
  have s4: "(y - 1968) div 4 = (y - 1969) div 4 + (if y mod 4 = 0 then 1 else 0)"
    using div_step [of 4 "y - 1969"] m4 by simp
  have s100: "(y - 1900) div 100 = (y - 1901) div 100 + (if y mod 100 = 0 then 1 else 0)"
    using div_step [of 100 "y - 1901"] m100 by simp
  have s400: "(y - 1600) div 400 = (y - 1601) div 400 + (if y mod 400 = 0 then 1 else 0)"
    using div_step [of 400 "y - 1601"] m400 by simp
  have "dayFromYear (y + 1) =
      365 * (y - 1969) + (y - 1968) div 4 - (y - 1900) div 100 + (y - 1600) div 400"
    by (simp add: dayFromYear_def)
  then show ?thesis
    using mod_100_4 [of y] mod_400_100 [of y]
    by (simp add: s4 s100 s400 dayFromYear_def daysInYear_def)
qed


lemma div_bounds:
  fixes a n :: int
  assumes "0 < n"
  shows "n * (a div n) \<le> a" and "a < n * (a div n) + n"
proof -
  have e: "a = n * (a div n) + a mod n" by simp
  have "0 \<le> a mod n" "a mod n < n" using assms by simp_all
  then show "n * (a div n) \<le> a" and "a < n * (a div n) + n" using e by linarith+
qed

lemma dayFromYear_bounds:
  shows "146097 * x - 506 \<le> 400 * dayFromYear (1970 + x)"
    and "400 * dayFromYear (1970 + x) \<le> 146097 * x + 589"
proof -
  define a where "a = (x + 1) div 4"
  define b where "b = (x + 69) div 100"
  define c where "c = (x + 369) div 400"
  have a: "4 * a \<le> x + 1" "x + 1 < 4 * a + 4"
    using div_bounds [of 4 "x + 1"] by (simp_all add: a_def)
  have b: "100 * b \<le> x + 69" "x + 69 < 100 * b + 100"
    using div_bounds [of 100 "x + 69"] by (simp_all add: b_def)
  have c: "400 * c \<le> x + 369" "x + 369 < 400 * c + 400"
    using div_bounds [of 400 "x + 369"] by (simp_all add: c_def)
  have e: "dayFromYear (1970 + x) = 365 * x + a - b + c"
    by (simp add: dayFromYear_def a_def b_def c_def add.commute)
  show "146097 * x - 506 \<le> 400 * dayFromYear (1970 + x)"
    using a b c e by linarith
  show "400 * dayFromYear (1970 + x) \<le> 146097 * x + 589"
    using a b c e by linarith
qed

lemma dayFromYear_strict_mono:
  assumes "y < z"
  shows "dayFromYear y < dayFromYear z"
proof -
  have "400 * dayFromYear (1970 + (y - 1970)) \<le> 146097 * (y - 1970) + 589"
    by (rule dayFromYear_bounds)
  moreover have "146097 * (z - 1970) - 506 \<le> 400 * dayFromYear (1970 + (z - 1970))"
    by (rule dayFromYear_bounds)
  moreover have "y - 1970 + 1 \<le> z - 1970" using assms by simp
  ultimately show ?thesis by simp
qed

lemma dayFromYear_mono: "y \<le> z \<Longrightarrow> dayFromYear y \<le> dayFromYear z"
  using dayFromYear_strict_mono [of y z] by (cases "y = z") simp_all

lemma yearFromDay_est:
  shows "dayFromYear (1970 + (400 * d) div 146097 - 1) \<le> d"
    and "d < dayFromYear (1970 + (400 * d) div 146097 + 2)"
proof -
  define q where "q = (400 * d) div 146097"
  have q: "146097 * q \<le> 400 * d" "400 * d < 146097 * q + 146097"
    using div_bounds [of 146097 "400 * d"] by (simp_all add: q_def)
  have "400 * dayFromYear (1970 + (q - 1)) \<le> 146097 * (q - 1) + 589"
    by (rule dayFromYear_bounds)
  then have "400 * dayFromYear (1970 + (q - 1)) \<le> 146097 * q - 145508"
    by (simp add: right_diff_distrib)
  then have "dayFromYear (1970 + (q - 1)) \<le> d"
    using q by linarith
  then show "dayFromYear (1970 + (400 * d) div 146097 - 1) \<le> d"
    by (simp add: q_def)
  have "146097 * (q + 2) - 506 \<le> 400 * dayFromYear (1970 + (q + 2))"
    by (rule dayFromYear_bounds)
  then have "146097 * q + 291688 \<le> 400 * dayFromYear (1970 + (q + 2))"
    by (simp add: distrib_left)
  then have "d < dayFromYear (1970 + (q + 2))"
    using q by linarith
  then show "d < dayFromYear (1970 + (400 * d) div 146097 + 2)"
    by (simp add: q_def add.assoc)
qed

lemma yearFromDay_lower: "dayFromYear (yearFromDay d) \<le> d"
  using yearFromDay_est [of d] by (simp add: yearFromDay_def Let_def)

lemma yearFromDay_upper: "d < dayFromYear (yearFromDay d + 1)"
  using yearFromDay_est [of d] by (simp add: yearFromDay_def Let_def add.assoc)

lemma yearFromDay_unique:
  assumes "dayFromYear y \<le> d" and "d < dayFromYear (y + 1)"
  shows "yearFromDay d = y"
proof (rule ccontr)
  assume neq: "yearFromDay d \<noteq> y"
  show False
  proof (cases "yearFromDay d < y")
    case True
    then have "dayFromYear (yearFromDay d + 1) \<le> dayFromYear y"
      by (intro dayFromYear_mono) simp
    then show False using yearFromDay_upper [of d] assms(1) by linarith
  next
    case False
    then have "dayFromYear (y + 1) \<le> dayFromYear (yearFromDay d)"
      using neq by (intro dayFromYear_mono) simp
    then show False using yearFromDay_lower [of d] assms(2) by linarith
  qed
qed



lemma daysInYear_leapDays: "daysInYear y = 365 + leapDays y"
  by (simp add: leapDays_def inLeapYear_def daysInYear_def)

lemma leapDays_range: "0 \<le> leapDays y \<and> leapDays y \<le> 1"
  by (simp add: leapDays_def)

lemma dayWithinYear_range:
  "0 \<le> dayWithinYear d \<and> dayWithinYear d < 365 + leapDays (yearFromDay d)"
  using yearFromDay_lower [of d] yearFromDay_upper [of d] dayFromYear_Suc [of "yearFromDay d"]
  by (simp add: dayWithinYear_def daysInYear_leapDays)

lemma monthFromDay_range: "0 \<le> monthFromDay d \<and> monthFromDay d \<le> 11"
  by (simp add: monthFromDay_def Let_def)

lemma dateFromDay_range: "1 \<le> dateFromDay d \<and> dateFromDay d \<le> 31"
proof -
  define w where "w = dayWithinYear d"
  define l where "l = leapDays (yearFromDay d)"
  have w: "0 \<le> w" "w < 365 + l" using dayWithinYear_range [of d] by (simp_all add: w_def l_def)
  have l: "0 \<le> l" "l \<le> 1" using leapDays_range [of "yearFromDay d"] by (simp_all add: l_def)
  show ?thesis
    using w l
    unfolding dateFromDay_def monthFromDay_def Let_def daysBeforeMonth_def
      w_def [symmetric] l_def [symmetric]
    by (simp split: if_splits)
qed

text \<open>
  Reading a date back: the day built from a year, a month and a day of this month has this
  year, this month and this day; and day 0 of the next month is the last day of the month.
\<close>

lemma month_cases:
  assumes "0 \<le> m" and "m < 12"
  obtains "m = 0" | "m = 1" | "m = 2" | "m = 3" | "m = 4" | "m = 5"
    | "m = 6" | "m = 7" | "m = 8" | "m = 9" | "m = 10" | "m = (11::int)"
proof -
  have "m = 0 \<or> m = 1 \<or> m = 2 \<or> m = 3 \<or> m = 4 \<or> m = 5
      \<or> m = 6 \<or> m = 7 \<or> m = 8 \<or> m = 9 \<or> m = 10 \<or> m = 11"
    using assms by presburger
  then show ?thesis using that by blast
qed

lemma makeDay_in_year:
  assumes "0 \<le> m" and "m < 12"
  shows "makeDay y m d = dayFromYear y + (daysBeforeMonth y m + d - 1)"
proof -
  have "m div 12 = 0" "m mod 12 = m" using assms by simp_all
  then show ?thesis by (simp add: makeDay_def Let_def)
qed

lemma civil_roundtrip:
  assumes "0 \<le> m" and "m < 12" and "1 \<le> d" and "d \<le> monthLength y m"
  shows "yearFromDay (makeDay y m d) = y
    \<and> monthFromDay (makeDay y m d) = m
    \<and> dateFromDay (makeDay y m d) = d"
proof -
  define w where "w = daysBeforeMonth y m + d - 1"
  have l: "0 \<le> leapDays y" "leapDays y \<le> 1" using leapDays_range [of y] by simp_all
  have w: "0 \<le> w" "w < 365 + leapDays y"
    using assms l unfolding w_def monthLength_def daysBeforeMonth_def
    by (cases rule: month_cases [OF assms(1,2)]; simp)+
  have md: "makeDay y m d = dayFromYear y + w"
    using makeDay_in_year [OF assms(1,2)] by (simp add: w_def)
  have yr: "yearFromDay (makeDay y m d) = y"
    unfolding md using w dayFromYear_Suc [of y]
    by (intro yearFromDay_unique) (simp_all add: daysInYear_leapDays)
  then have dw: "dayWithinYear (makeDay y m d) = w"
    by (simp add: dayWithinYear_def md)
  have mo: "monthFromDay (makeDay y m d) = m"
    using assms l unfolding monthFromDay_def Let_def yr dw w_def monthLength_def daysBeforeMonth_def
    by (cases rule: month_cases [OF assms(1,2)]; simp)
  have "dateFromDay (makeDay y m d) = d"
    by (simp add: dateFromDay_def yr dw mo w_def)
  with yr mo show ?thesis by simp
qed


lemma last_day_of_month:
  assumes "0 \<le> m" and "m < 12"
  shows "makeDay y (m + 1) 0 = makeDay y m (monthLength y m)"
proof (cases "m = 11")
  case True
  have "makeDay y 12 0 = dayFromYear (y + 1) - 1"
    by (simp add: makeDay_def Let_def daysBeforeMonth_def)
  also have "\<dots> = dayFromYear y + (365 + leapDays y) - 1"
    by (simp add: dayFromYear_Suc daysInYear_leapDays)
  also have "\<dots> = makeDay y 11 (monthLength y 11)"
    by (simp add: makeDay_def Let_def daysBeforeMonth_def monthLength_def)
  finally show ?thesis using True by simp
next
  case False
  with assms have m1: "0 \<le> m + 1" "m + 1 < 12" by simp_all
  show ?thesis
    unfolding makeDay_in_year [OF m1] makeDay_in_year [OF assms]
    unfolding monthLength_def daysBeforeMonth_def
    using False by (cases rule: month_cases [OF assms]; simp)
qed

section \<open>The date extractor: properties\<close>

lemma extract_other_sources:
  assumes "dailyDates host settings f @ frontmatterDates host settings f \<noteq> []"
  shows "extractDatesFromFile host settings f
    = dailyDates host settings f @ frontmatterDates host settings f"
  using assms by (simp add: extractDatesFromFile_def Let_def)

lemma frontmatterDates_nonempty:
  assumes "getFrontmatter host f = Some fm" and "field \<in> set (dateFields settings)"
    and "fieldDates host fm field \<noteq> []"
  shows "frontmatterDates host settings f \<noteq> []"
  using assms by (auto simp: frontmatterDates_def)

text \<open>
  Claim C1. The creation date is a fallback. When the file name gives a date, or some
  configured frontmatter field gives one, the extractor returns the dates of these two
  sources and nothing else, whatever the flag says; when the two sources give no date, it
  returns the creation date alone if the flag is set, and no date if it is not.
\<close>

theorem fallback_only_without_other_dates:
  "((parseDailyNoteDate host settings f \<noteq> None
      \<or> (\<exists>fm field. getFrontmatter host f = Some fm \<and> field \<in> set (dateFields settings)
            \<and> fieldDates host fm field \<noteq> []))
     \<longrightarrow> extractDatesFromFile host settings f
          = dailyDates host settings f @ frontmatterDates host settings f)
   \<and> (dailyDates host settings f @ frontmatterDates host settings f = []
        \<longrightarrow> extractDatesFromFile host settings f
          = (if showFileCreationDates settings then [newDateOfTime (ctime f)] else []))"
proof (intro conjI impI)
  assume "parseDailyNoteDate host settings f \<noteq> None
      \<or> (\<exists>fm field. getFrontmatter host f = Some fm \<and> field \<in> set (dateFields settings)
            \<and> fieldDates host fm field \<noteq> [])"
  then have "dailyDates host settings f @ frontmatterDates host settings f \<noteq> []"
    by (auto simp: dailyDates_def dest: frontmatterDates_nonempty)
  then show "extractDatesFromFile host settings f
    = dailyDates host settings f @ frontmatterDates host settings f"
    by (rule extract_other_sources)
next
  assume "dailyDates host settings f @ frontmatterDates host settings f = []"
  then show "extractDatesFromFile host settings f
          = (if showFileCreationDates settings then [newDateOfTime (ctime f)] else [])"
    by (simp add: extractDatesFromFile_def Let_def)
qed

text \<open>
  In the sample vault, with the flag set: the note with two date fields and the daily note
  yield their own dates only, the note without a date yields its creation date; with the
  flag off, that note yields nothing.
\<close>

theorem fallback_only_without_other_dates_witness:
  "extractDatesFromFile sampleVault (sampleSettings ''Daily'' True) notePlan
     = [newDate 2024 0 1, newDate 2024 0 1]
   \<and> extractDatesFromFile sampleVault (sampleSettings ''Daily'' True) noteDaily
     = [newDate 2024 2 15]
   \<and> extractDatesFromFile sampleVault (sampleSettings ''Daily'' True) noteIdea
     = [newDateOfTime 1700000000000]
   \<and> extractDatesFromFile sampleVault (sampleSettings ''Daily'' False) noteIdea = []"
proof -
  let ?S = "sampleSettings ''Daily'' True"
  let ?T = "sampleSettings ''Daily'' False"
  have "getFrontmatter sampleVault notePlan = Some planFrontmatter"
    by (simp add: sampleVault_def sampleHost_def sampleFrontmatter_def)
  moreover have "''date'' \<in> set (dateFields ?S)"
    by (simp add: sampleSettings_def)
  moreover have "fieldDates sampleVault planFrontmatter ''date'' \<noteq> []"
    by code_simp
  ultimately have "extractDatesFromFile sampleVault ?S notePlan
      = dailyDates sampleVault ?S notePlan @ frontmatterDates sampleVault ?S notePlan"
    using fallback_only_without_other_dates [of sampleVault ?S notePlan] by blast
  moreover have "dailyDates sampleVault ?S notePlan @ frontmatterDates sampleVault ?S notePlan
      = [newDate 2024 0 1, newDate 2024 0 1]"
    by code_simp
  moreover have "parseDailyNoteDate sampleVault ?S noteDaily \<noteq> None"
    by code_simp
  then have "extractDatesFromFile sampleVault ?S noteDaily
      = dailyDates sampleVault ?S noteDaily @ frontmatterDates sampleVault ?S noteDaily"
    using fallback_only_without_other_dates [of sampleVault ?S noteDaily] by blast
  moreover have "dailyDates sampleVault ?S noteDaily @ frontmatterDates sampleVault ?S noteDaily
      = [newDate 2024 2 15]"
    by code_simp
  moreover have "dailyDates sampleVault ?S noteIdea @ frontmatterDates sampleVault ?S noteIdea = []"
    by code_simp
  then have "extractDatesFromFile sampleVault ?S noteIdea
      = (if showFileCreationDates ?S then [newDateOfTime (ctime noteIdea)] else [])"
    using fallback_only_without_other_dates [of sampleVault ?S noteIdea] by blast
  moreover have "(if showFileCreationDates ?S then [newDateOfTime (ctime noteIdea)] else [])
      = [newDateOfTime 1700000000000]"
    by code_simp
  moreover have "dailyDates sampleVault ?T noteIdea @ frontmatterDates sampleVault ?T noteIdea = []"
    by code_simp
  then have "extractDatesFromFile sampleVault ?T noteIdea
      = (if showFileCreationDates ?T then [newDateOfTime (ctime noteIdea)] else [])"
    using fallback_only_without_other_dates [of sampleVault ?T noteIdea] by blast
  moreover have "(if showFileCreationDates ?T then [newDateOfTime (ctime noteIdea)] else []) = []"
    by code_simp
  ultimately show ?thesis by simp
qed

section \<open>The daily-note source: properties\<close>

text \<open>
  Claim C6. The daily-note source of a note in the configured folder, or of any note when no
  folder is configured, is the strict parse of the base name of the note against the
  configured format, whatever the frontmatter of the note is. For the note at
  \<open>Daily/2024-03-15.md\<close>, with the folder \<open>Daily\<close> and the format \<open>YYYY-MM-DD\<close>, it is the
  strict parse of \<open>2024-03-15\<close> against \<open>YYYY-MM-DD\<close>, and with the strict parser of the
  model it is exactly the date with the year 2024, the month March and the day 15. When the
  path of a note does not start with the configured folder, and the folder is not empty,
  the source yields nothing.
\<close>

theorem daily_note_source:
  "(dailyNotesFolder settings = [] \<or> prefix (dailyNotesFolder settings) (path f)
     \<longrightarrow> parseDailyNoteDate host settings f
         = momentStrict host (basename f) (dailyNoteFormat settings))
   \<and> (path f = ''Daily/2024-03-15.md'' \<and> basename f = ''2024-03-15''
      \<and> dailyNotesFolder settings = ''Daily'' \<and> dailyNoteFormat settings = ''YYYY-MM-DD''
     \<longrightarrow> parseDailyNoteDate host settings f = momentStrict host ''2024-03-15'' ''YYYY-MM-DD''
       \<and> (momentStrict host = momentStrictModel
            \<longrightarrow> parseDailyNoteDate host settings f = Some (newDate 2024 2 15)
              \<and> dailyDates host settings f = [newDate 2024 2 15]))
   \<and> getFullYear (newDate 2024 2 15) = Some 2024
   \<and> getMonth (newDate 2024 2 15) = Some 2
   \<and> getDate (newDate 2024 2 15) = Some 15
   \<and> dateKey (newDate 2024 2 15) = ''2024-03-15''
   \<and> (dailyNotesFolder settings \<noteq> [] \<and> \<not> prefix (dailyNotesFolder settings) (path f)
     \<longrightarrow> parseDailyNoteDate host settings f = None \<and> dailyDates host settings f = [])"
proof -
  have p: "prefix ''Daily'' ''Daily/2024-03-15.md''" by simp
  have m: "momentStrictModel ''2024-03-15'' ''YYYY-MM-DD'' = Some (newDate 2024 2 15)"
    by code_simp
  have d: "getFullYear (newDate 2024 2 15) = Some 2024" "getMonth (newDate 2024 2 15) = Some 2"
    "getDate (newDate 2024 2 15) = Some 15" "dateKey (newDate 2024 2 15) = ''2024-03-15''"
    by code_simp+
  show ?thesis
    using p m d by (auto simp: parseDailyNoteDate_def dailyDates_def Let_def)
qed

text \<open>
  In the sample vault the daily note gives its date, and the note under \<open>Projects\<close> gives
  none.
\<close>

theorem daily_note_source_witness:
  "parseDailyNoteDate sampleVault (sampleSettings ''Daily'' True) noteDaily
     = momentStrict sampleVault (basename noteDaily) ''YYYY-MM-DD''
   \<and> parseDailyNoteDate sampleVault (sampleSettings ''Daily'' True) noteDaily
     = Some (newDate 2024 2 15)
   \<and> dailyDates sampleVault (sampleSettings ''Daily'' True) noteDaily = [newDate 2024 2 15]
   \<and> parseDailyNoteDate sampleVault (sampleSettings ''Daily'' True) notePlan = None
   \<and> dailyDates sampleVault (sampleSettings ''Daily'' True) notePlan = []
   \<and> parseDailyNoteDate sampleVault (sampleSettings [] True) notePlan
     = momentStrict sampleVault ''plan'' ''YYYY-MM-DD''"
proof -
  let ?S = "sampleSettings ''Daily'' True"
  let ?R = "sampleSettings [] True"
  have a: "path noteDaily = ''Daily/2024-03-15.md''" "basename noteDaily = ''2024-03-15''"
    "dailyNotesFolder ?S = ''Daily''" "dailyNoteFormat ?S = ''YYYY-MM-DD''"
    by (simp_all add: noteDaily_def sampleSettings_def)
  have b: "momentStrict sampleVault = momentStrictModel"
    by (simp add: sampleVault_def sampleHost_def)
  have c: "dailyNotesFolder ?S \<noteq> []" "\<not> prefix (dailyNotesFolder ?S) (path notePlan)"
    by (simp_all add: notePlan_def sampleSettings_def)
  have e: "dailyNotesFolder ?R = []" "dailyNoteFormat ?R = ''YYYY-MM-DD''"
    "basename notePlan = ''plan''"
    by (simp_all add: notePlan_def sampleSettings_def)
  from daily_note_source [of ?S noteDaily sampleVault]
  have "path noteDaily = ''Daily/2024-03-15.md'' \<and> basename noteDaily = ''2024-03-15''
      \<and> dailyNotesFolder ?S = ''Daily'' \<and> dailyNoteFormat ?S = ''YYYY-MM-DD''
     \<longrightarrow> parseDailyNoteDate sampleVault ?S noteDaily
         = momentStrict sampleVault ''2024-03-15'' ''YYYY-MM-DD''
       \<and> (momentStrict sampleVault = momentStrictModel
            \<longrightarrow> parseDailyNoteDate sampleVault ?S noteDaily = Some (newDate 2024 2 15)
              \<and> dailyDates sampleVault ?S noteDaily = [newDate 2024 2 15])"
    by (elim conjE)
  with a b have 1: "parseDailyNoteDate sampleVault ?S noteDaily
      = momentStrict sampleVault ''2024-03-15'' ''YYYY-MM-DD''"
    "parseDailyNoteDate sampleVault ?S noteDaily = Some (newDate 2024 2 15)"
    "dailyDates sampleVault ?S noteDaily = [newDate 2024 2 15]"
    by blast+
  from daily_note_source [of ?S notePlan sampleVault]
  have "dailyNotesFolder ?S \<noteq> [] \<and> \<not> prefix (dailyNotesFolder ?S) (path notePlan)
     \<longrightarrow> parseDailyNoteDate sampleVault ?S notePlan = None
       \<and> dailyDates sampleVault ?S notePlan = []"
    by (elim conjE)
  with c have 2: "parseDailyNoteDate sampleVault ?S notePlan = None"
    "dailyDates sampleVault ?S notePlan = []"
    by blast+
  from daily_note_source [of ?R notePlan sampleVault]
  have "dailyNotesFolder ?R = [] \<or> prefix (dailyNotesFolder ?R) (path notePlan)
     \<longrightarrow> parseDailyNoteDate sampleVault ?R notePlan
         = momentStrict sampleVault (basename notePlan) (dailyNoteFormat ?R)"
    by (elim conjE)
  with e have 3: "parseDailyNoteDate sampleVault ?R notePlan
      = momentStrict sampleVault ''plan'' ''YYYY-MM-DD''"
    by simp
  from 1 2 3 a show ?thesis by simp
qed

section \<open>The event index: properties\<close>

text \<open>
  The sequence stored under a key, as a function of the notes: in the order of the notes
  and, for one note, of its dates, one event for every date that has this key.
\<close>

lemma dayEventsOf_addEvent:
  "dayEventsOf (addEvent f events d) K
     = dayEventsOf events K @ (if dateKey d = K then [newEvent f d] else [])"
  by (auto simp: addEvent_def dayEventsOf_def Let_def split: option.splits)

lemma dayEventsOf_foldl_addEvent:
  "dayEventsOf (foldl (addEvent f) events ds) K
     = dayEventsOf events K @ map (newEvent f) (filter (\<lambda>d. dateKey d = K) ds)"
  by (induction ds arbitrary: events) (simp_all add: dayEventsOf_addEvent)

lemma dayEventsOf_foldl_addFile:
  "dayEventsOf (foldl (addFile host settings) events fs) K
     = dayEventsOf events K
       @ concat (map (\<lambda>f. map (newEvent f)
           (filter (\<lambda>d. dateKey d = K) (extractDatesFromFile host settings f))) fs)"
  by (induction fs arbitrary: events) (simp_all add: addFile_def dayEventsOf_foldl_addEvent)

lemma dayEventsOf_loadEvents:
  "dayEventsOf (loadEvents host settings) K
     = concat (map (\<lambda>f. map (newEvent f)
         (filter (\<lambda>d. dateKey d = K) (extractDatesFromFile host settings f)))
         (getMarkdownFiles host))"
proof -
  have "dayEventsOf Map.empty K = []" by (simp add: dayEventsOf_def)
  then show ?thesis by (simp add: loadEvents_def dayEventsOf_foldl_addFile)
qed

lemma addEvent_wellKeyed:
  assumes "wellKeyed events"
  shows "wellKeyed (addEvent f events d)"
  using assms
  by (auto simp: wellKeyed_def addEvent_def Let_def newEvent_def split: option.splits if_splits)

lemma foldl_addEvent_wellKeyed:
  "wellKeyed events \<Longrightarrow> wellKeyed (foldl (addEvent f) events ds)"
  by (induction ds arbitrary: events) (simp_all add: addEvent_wellKeyed)

lemma foldl_addFile_wellKeyed:
  "wellKeyed events \<Longrightarrow> wellKeyed (foldl (addFile host settings) events fs)"
  by (induction fs arbitrary: events) (simp_all add: addFile_def foldl_addEvent_wellKeyed)

lemma loadEvents_wellKeyed: "wellKeyed (loadEvents host settings)"
  unfolding loadEvents_def by (rule foldl_addFile_wellKeyed) (simp add: wellKeyed_def)

text \<open>
  Claim C4. After a rebuild of the index over any notes, every key of the index holds a
  sequence that is not empty, and the canonical key of the start date of every event in
  the sequence is that key.
\<close>

theorem index_keys_match:
  assumes "loadEvents host settings K = Some evs"
  shows "evs \<noteq> [] \<and> (\<forall>e \<in> set evs. dateKey (startDate e) = K)"
  using loadEvents_wellKeyed [of host settings] assms unfolding wellKeyed_def by blast

text \<open>The sample vault holds two events under the first of January 2024.\<close>

theorem index_keys_match_witness:
  "loadEvents sampleVault (sampleSettings ''Daily'' True) ''2024-01-01''
     = Some [newEvent notePlan (newDate 2024 0 1), newEvent notePlan (newDate 2024 0 1)]
   \<and> list_all (\<lambda>e. dateKey (startDate e) = ''2024-01-01'')
        [newEvent notePlan (newDate 2024 0 1), newEvent notePlan (newDate 2024 0 1)]"
proof -
  have h: "loadEvents sampleVault (sampleSettings ''Daily'' True) ''2024-01-01''
     = Some [newEvent notePlan (newDate 2024 0 1), newEvent notePlan (newDate 2024 0 1)]"
    by code_simp
  from index_keys_match [OF h] show ?thesis using h by simp
qed

section \<open>Dates from several fields\<close>

lemma filter_concat_member:
  assumes "a \<in> set xs"
  shows "length (filter P (g a)) \<le> length (filter P (concat (map g xs)))"
  using assms by (induction xs) auto

lemma filter_concat_two_members:
  assumes "a \<in> set xs" and "b \<in> set xs" and "a \<noteq> b"
  shows "length (filter P (g a)) + length (filter P (g b))
    \<le> length (filter P (concat (map g xs)))"
  using assms
proof (induction xs)
  case Nil
  then show ?case by simp
next
  case (Cons x xs)
  show ?case
  proof (cases "x = a")
    case True
    with Cons.prems have "b \<in> set xs" by auto
    from filter_concat_member [OF this, of P g] True show ?thesis by simp
  next
    case False
    note xa = this
    show ?thesis
    proof (cases "x = b")
      case True
      with Cons.prems have "a \<in> set xs" by auto
      from filter_concat_member [OF this, of P g] True show ?thesis by simp
    next
      case False
      with xa Cons.prems have "a \<in> set xs" "b \<in> set xs" by auto
      from Cons.IH [OF this Cons.prems(3)] show ?thesis by simp
    qed
  qed
qed

lemma fieldDates_parsed:
  assumes "fm a = Some v" and "truthy v" and "parseDate host v = Some d"
  shows "fieldDates host fm a = [d]"
  using assms by (simp add: fieldDates_def)

text \<open>
  Claim C5. When the frontmatter of a note has two distinct configured fields whose values
  parse to dates with the same key, the extractor returns at least two dates with this
  key, and the index holds at least two events of this note under the key: nothing is
  removed as a duplicate.
\<close>

theorem no_deduplication:
  assumes "f \<in> set (getMarkdownFiles host)"
    and "getFrontmatter host f = Some fm"
    and "a \<in> set (dateFields settings)" and "b \<in> set (dateFields settings)" and "a \<noteq> b"
    and "fm a = Some va" and "truthy va" and "parseDate host va = Some da"
    and "fm b = Some vb" and "truthy vb" and "parseDate host vb = Some db"
    and "dateKey da = K" and "dateKey db = K"
  shows "2 \<le> length (filter (\<lambda>d. dateKey d = K) (extractDatesFromFile host settings f))
    \<and> 2 \<le> length (filter (\<lambda>e. eventFile e = f) (dayEventsOf (loadEvents host settings) K))"
proof -
  let ?P = "\<lambda>d. dateKey d = K"
  have fa: "fieldDates host fm a = [da]" using assms(6-8) by (rule fieldDates_parsed)
  have fb: "fieldDates host fm b = [db]" using assms(9-11) by (rule fieldDates_parsed)
  have fd: "frontmatterDates host settings f = concat (map (fieldDates host fm) (dateFields settings))"
    using assms(2) by (simp add: frontmatterDates_def)
  have "length (filter ?P (fieldDates host fm a)) + length (filter ?P (fieldDates host fm b))
      \<le> length (filter ?P (frontmatterDates host settings f))"
    unfolding fd using assms(3-5) by (rule filter_concat_two_members)
  then have two: "2 \<le> length (filter ?P (frontmatterDates host settings f))"
    using assms(12,13) by (simp add: fa fb)
  then have "frontmatterDates host settings f \<noteq> []" by auto
  then have "extractDatesFromFile host settings f
      = dailyDates host settings f @ frontmatterDates host settings f"
    by (intro extract_other_sources) simp
  with two have dates: "2 \<le> length (filter ?P (extractDatesFromFile host settings f))"
    by simp
  let ?g = "\<lambda>f. map (newEvent f) (filter ?P (extractDatesFromFile host settings f))"
  have "length (filter (\<lambda>e. eventFile e = f) (?g f))
      \<le> length (filter (\<lambda>e. eventFile e = f) (concat (map ?g (getMarkdownFiles host))))"
    using assms(1) by (rule filter_concat_member)
  moreover have "filter (\<lambda>e. eventFile e = f) (?g f) = ?g f"
    by (simp add: newEvent_def filter_map comp_def)
  ultimately have "2 \<le> length (filter (\<lambda>e. eventFile e = f)
      (dayEventsOf (loadEvents host settings) K))"
    using dates by (simp add: dayEventsOf_loadEvents)
  with dates show ?thesis by simp
qed

text \<open>
  The note with \<open>date\<close> and \<open>due\<close> on the first of January 2024 has two events under
  this day.
\<close>

theorem no_deduplication_witness:
  "extractDatesFromFile sampleVault (sampleSettings ''Daily'' True) notePlan
     = [newDate 2024 0 1, newDate 2024 0 1]
   \<and> dayEventsOf (loadEvents sampleVault (sampleSettings ''Daily'' True)) ''2024-01-01''
     = [newEvent notePlan (newDate 2024 0 1), newEvent notePlan (newDate 2024 0 1)]
   \<and> 2 \<le> length (filter (\<lambda>e. eventFile e = notePlan)
        (dayEventsOf (loadEvents sampleVault (sampleSettings ''Daily'' True)) ''2024-01-01''))"
proof -
  let ?S = "sampleSettings ''Daily'' True"
  have 1: "notePlan \<in> set (getMarkdownFiles sampleVault)"
    by (simp add: sampleVault_def sampleHost_def)
  have 2: "getFrontmatter sampleVault notePlan = Some planFrontmatter"
    by (simp add: sampleVault_def sampleHost_def sampleFrontmatter_def)
  have 3: "''date'' \<in> set (dateFields ?S)" "''due'' \<in> set (dateFields ?S)" "''date'' \<noteq> ''due''"
    by (simp_all add: sampleSettings_def)
  have 4: "planFrontmatter ''date'' = Some (FmString ''2024-01-01'')"
    "planFrontmatter ''due'' = Some (FmString ''2024-01-01'')"
    by (simp_all add: planFrontmatter_def)
  have 5: "truthy (FmString ''2024-01-01'')" by simp
  have 6: "parseDate sampleVault (FmString ''2024-01-01'') = Some (newDate 2024 0 1)"
    by code_simp
  have 7: "dateKey (newDate 2024 0 1) = ''2024-01-01''" by code_simp
  have 8: "extractDatesFromFile sampleVault ?S notePlan = [newDate 2024 0 1, newDate 2024 0 1]"
    by code_simp
  have 9: "dayEventsOf (loadEvents sampleVault ?S) ''2024-01-01''
     = [newEvent notePlan (newDate 2024 0 1), newEvent notePlan (newDate 2024 0 1)]"
    by code_simp
  from no_deduplication [OF 1 2 3 4(1) 5 6 4(2) 5 6 7 7] 8 9
  show ?thesis by simp
qed

section \<open>The grid layout: properties\<close>

lemma weekDay_range: "0 \<le> weekDay d \<and> weekDay d \<le> 6"
  by (simp add: weekDay_def)

lemma getDate_range: "getDate d = Some k \<Longrightarrow> 1 \<le> k \<and> k \<le> 31"
  using dateFromDay_range by (cases d) (auto simp: getDate_def)

lemma offset_range: "offset yr mo = Some n \<Longrightarrow> 0 \<le> n \<and> n \<le> 6"
  by (auto simp: offset_def)

lemma endColumn_range: "endColumn yr mo = Some e \<Longrightarrow> 1 \<le> e \<and> e \<le> 37"
proof -
  assume e: "endColumn yr mo = Some e"
  then obtain n k where n: "offset yr mo = Some n" and k: "daysInMonth yr mo = Some k"
    and s: "e = n + k"
    by (cases "offset yr mo"; cases "daysInMonth yr mo") (auto simp: endColumn_def)
  from offset_range [OF n] getDate_range [of "newDate yr (mo + 1) 0" k] k s show ?thesis
    by (simp add: daysInMonth_def)
qed

lemma maxColumnsFrom_upper:
  "maxEndColumn \<le> 37 \<Longrightarrow> maxColumnsFrom yr mo maxEndColumn \<le> 37"
proof (induction yr mo maxEndColumn rule: maxColumnsFrom.induct)
  case (1 yr mo maxEndColumn)
  show ?case
  proof (cases "mo < 12")
    case True
    have "(case endColumn yr mo of
             None \<Rightarrow> maxEndColumn
           | Some e \<Rightarrow> if e > maxEndColumn then e else maxEndColumn) \<le> 37"
      using "1.prems" endColumn_range [of yr mo]
      by (cases "endColumn yr mo") auto
    from "1.IH" [OF True this] True show ?thesis
      by (simp add: maxColumnsFrom.simps [of yr mo maxEndColumn])
  next
    case False
    with "1.prems" show ?thesis by (simp add: maxColumnsFrom.simps [of yr mo maxEndColumn])
  qed
qed

lemma maxColumnsFrom_lower:
  "maxEndColumn \<le> maxColumnsFrom yr mo maxEndColumn"
proof (induction yr mo maxEndColumn rule: maxColumnsFrom.induct)
  case (1 yr mo maxEndColumn)
  show ?case
  proof (cases "mo < 12")
    case True
    have "maxEndColumn \<le> (case endColumn yr mo of
             None \<Rightarrow> maxEndColumn
           | Some e \<Rightarrow> if e > maxEndColumn then e else maxEndColumn)"
      by (cases "endColumn yr mo") auto
    with "1.IH" [OF True] True show ?thesis
      by (simp add: maxColumnsFrom.simps [of yr mo maxEndColumn])
  next
    case False
    then show ?thesis by (simp add: maxColumnsFrom.simps [of yr mo maxEndColumn])
  qed
qed

lemma maxColumnsFrom_no_dates:
  "(\<forall>m. 0 \<le> m \<and> m < 12 \<longrightarrow> endColumn yr m = None) \<Longrightarrow> 0 \<le> mo
    \<Longrightarrow> maxColumnsFrom yr mo maxEndColumn = maxEndColumn"
proof (induction yr mo maxEndColumn rule: maxColumnsFrom.induct)
  case (1 yr mo maxEndColumn)
  show ?case
  proof (cases "mo < 12")
    case True
    with "1.prems" have none: "endColumn yr mo = None" by simp
    have "maxColumnsFrom yr (mo + 1) maxEndColumn = maxEndColumn"
      using "1.IH" [OF True] "1.prems" none by simp
    with True none show ?thesis
      by (simp add: maxColumnsFrom.simps [of yr mo maxEndColumn])
  next
    case False
    then show ?thesis by (simp add: maxColumnsFrom.simps [of yr mo maxEndColumn])
  qed
qed

lemma maxColumnsFrom_covers:
  "mo \<le> m \<Longrightarrow> m < 12 \<Longrightarrow> endColumn yr m = Some e
    \<Longrightarrow> e \<le> maxColumnsFrom yr mo maxEndColumn"
proof (induction yr mo maxEndColumn rule: maxColumnsFrom.induct)
  case (1 yr mo maxEndColumn)
  let ?next = "case endColumn yr mo of
      None \<Rightarrow> maxEndColumn
    | Some e \<Rightarrow> if e > maxEndColumn then e else maxEndColumn"
  from "1.prems" have lt: "mo < 12" by simp
  then have unfold: "maxColumnsFrom yr mo maxEndColumn = maxColumnsFrom yr (mo + 1) ?next"
    by (simp add: maxColumnsFrom.simps [of yr mo maxEndColumn])
  show ?case
  proof (cases "m = mo")
    case True
    with "1.prems" have "e \<le> ?next" by simp
    also have "?next \<le> maxColumnsFrom yr (mo + 1) ?next" by (rule maxColumnsFrom_lower)
    finally show ?thesis by (simp add: unfold)
  next
    case False
    with "1.prems" have "mo + 1 \<le> m" by simp
    from "1.IH" [OF lt this "1.prems"(2,3)] show ?thesis by (simp add: unfold)
  qed
qed

lemma maxColumnsFrom_attained:
  "0 \<le> mo \<Longrightarrow> maxColumnsFrom yr mo maxEndColumn = maxEndColumn
    \<or> (\<exists>m. mo \<le> m \<and> m < 12 \<and> endColumn yr m = Some (maxColumnsFrom yr mo maxEndColumn))"
proof (induction yr mo maxEndColumn rule: maxColumnsFrom.induct)
  case (1 yr mo maxEndColumn)
  let ?next = "case endColumn yr mo of
      None \<Rightarrow> maxEndColumn
    | Some e \<Rightarrow> if e > maxEndColumn then e else maxEndColumn"
  show ?case
  proof (cases "mo < 12")
    case False
    then show ?thesis by (simp add: maxColumnsFrom.simps [of yr mo maxEndColumn])
  next
    case True
    then have unfold: "maxColumnsFrom yr mo maxEndColumn = maxColumnsFrom yr (mo + 1) ?next"
      by (simp add: maxColumnsFrom.simps [of yr mo maxEndColumn])
    from "1.prems" have "0 \<le> mo + 1" by simp
    from "1.IH" [OF True this]
    consider "maxColumnsFrom yr (mo + 1) ?next = ?next"
      | m where "mo + 1 \<le> m" "m < 12" "endColumn yr m = Some (maxColumnsFrom yr (mo + 1) ?next)"
      by blast
    then show ?thesis
    proof cases
      case 1
      have "?next = maxEndColumn \<or> endColumn yr mo = Some ?next"
        by (cases "endColumn yr mo") auto
      with 1 True show ?thesis unfolding unfold by auto
    next
      case 2
      then have "mo \<le> m" by simp
      with 2 show ?thesis unfolding unfold by blast
    qed
  qed
qed

lemma calculateMaxColumns_upper: "calculateMaxColumns yr \<le> 37"
  unfolding calculateMaxColumns_def by (rule maxColumnsFrom_upper) simp

lemma calculateMaxColumns_january:
  assumes "endColumn yr 0 = Some e"
  shows "e \<le> calculateMaxColumns yr"
proof -
  have "calculateMaxColumns yr = maxColumnsFrom yr 1 (if e > 0 then e else 0)"
    using assms by (simp add: calculateMaxColumns_def maxColumnsFrom.simps [of yr 0 0])
  moreover have "(if e > 0 then e else 0) \<le> maxColumnsFrom yr 1 (if e > 0 then e else 0)"
    by (rule maxColumnsFrom_lower)
  ultimately show ?thesis by (simp split: if_splits)
qed

text \<open>
  January has 31 days in every year, and its first and last day are dates in every year from
  -271820 to 275760.
\<close>

lemma dayOf_midnight: "dayOf (TimeValue (n * msPerDay)) = Some n"
  by (simp add: msPerDay_def)

lemma timeClip_day:
  "\<bar>n\<bar> \<le> 100000000 \<Longrightarrow> timeClip (n * msPerDay) = TimeValue (n * msPerDay)"
  by (simp add: timeClip_def msPerDay_def maxTimeValue_def abs_le_iff)

lemma timeClip_late: "100000000 < n \<Longrightarrow> timeClip (n * msPerDay) = InvalidDate"
  by (simp add: timeClip_def msPerDay_def maxTimeValue_def abs_le_iff)

lemma timeClip_early: "n < - 100000000 \<Longrightarrow> timeClip (n * msPerDay) = InvalidDate"
  by (simp add: timeClip_def msPerDay_def maxTimeValue_def abs_le_iff)

lemma daysInYear_ge: "365 \<le> daysInYear y"
  by (simp add: daysInYear_def)

lemma january_31:
  "dateFromDay (dayFromYear y + 30) = 31"
proof -
  have y: "yearFromDay (dayFromYear y + 30) = y"
    using dayFromYear_Suc [of y] daysInYear_ge [of y] by (intro yearFromDay_unique) simp_all
  then have w: "dayWithinYear (dayFromYear y + 30) = 30"
    by (simp add: dayWithinYear_def)
  then have "monthFromDay (dayFromYear y + 30) = 0"
    by (simp add: monthFromDay_def Let_def daysBeforeMonth_def)
  with w show ?thesis by (simp add: dateFromDay_def daysBeforeMonth_def)
qed

lemma dayFromYear_first: "dayFromYear (-271820) = - 99999744"
  by (simp add: dayFromYear_def)

lemma dayFromYear_last: "dayFromYear 275760 = 99999744"
  by (simp add: dayFromYear_def)

lemma dayFromYear_before: "dayFromYear (-271821) = - 100000109"
  by (simp add: dayFromYear_def)

lemma dayFromYear_after: "dayFromYear 275761 = 100000110"
  by (simp add: dayFromYear_def)

lemma january_endColumn:
  assumes "-271820 \<le> yr" and "yr \<le> 275760"
  shows "\<exists>e. endColumn yr 0 = Some e \<and> 31 \<le> e"
proof -
  define y where "y = (if 0 \<le> yr \<and> yr \<le> 99 then 1900 + yr else yr)"
  have y: "-271820 \<le> y" "y \<le> 275760" using assms by (simp_all add: y_def)
  have lo: "- 99999744 \<le> dayFromYear y"
    using dayFromYear_mono [OF y(1)] by (simp add: dayFromYear_first)
  have hi: "dayFromYear y \<le> 99999744"
    using dayFromYear_mono [OF y(2)] by (simp add: dayFromYear_last)
  have "newDate yr 0 1 = timeClip (dayFromYear y * msPerDay)"
    by (simp add: newDate_def makeDay_def y_def daysBeforeMonth_def Let_def)
  also have "\<dots> = TimeValue (dayFromYear y * msPerDay)"
    using lo hi by (intro timeClip_day) simp
  finally have first: "getDay (firstDay yr 0) = Some (weekDay (dayFromYear y))"
    by (simp add: firstDay_def getDay_def dayOf_midnight del: dayOf.simps)
  have "newDate yr (0 + 1) 0 = timeClip ((dayFromYear y + 30) * msPerDay)"
    by (simp add: newDate_def makeDay_def y_def daysBeforeMonth_def Let_def add.commute)
  also have "\<dots> = TimeValue ((dayFromYear y + 30) * msPerDay)"
    using lo hi by (intro timeClip_day) simp
  finally have days: "daysInMonth yr 0 = Some 31"
    by (simp add: daysInMonth_def getDate_def dayOf_midnight january_31 del: dayOf.simps)
  have "endColumn yr 0 = Some ((weekDay (dayFromYear y) + 6) mod 7 + 31)"
    by (simp add: endColumn_def offset_def first days)
  moreover have "0 \<le> (weekDay (dayFromYear y) + 6) mod 7" by simp
  ultimately show ?thesis by simp
qed

text \<open>
  Outside the years from -271821 to 275760 the first day of no month is a date.
\<close>

lemma daysBeforeMonth_range: "0 \<le> daysBeforeMonth y m \<and> daysBeforeMonth y m \<le> 335"
  by (simp add: daysBeforeMonth_def leapDays_def)

lemma firstDay_of_month:
  assumes "0 \<le> mo" and "mo < 12" and "\<not> (0 \<le> yr \<and> yr \<le> 99)"
  shows "firstDay yr mo = timeClip ((dayFromYear yr + daysBeforeMonth yr mo) * msPerDay)"
proof -
  have "mo div 12 = 0" "mo mod 12 = mo" using assms(1,2) by simp_all
  then show ?thesis
    using assms(3) by (auto simp: firstDay_def newDate_def makeDay_def Let_def)
qed

lemma endColumn_no_dates:
  assumes "yr < -271821 \<or> 275760 < yr" and "0 \<le> mo" and "mo < 12"
  shows "endColumn yr mo = None"
proof -
  have "\<not> (0 \<le> yr \<and> yr \<le> 99)" using assms(1) by auto
  from firstDay_of_month [OF assms(2,3) this]
  have first: "firstDay yr mo = timeClip ((dayFromYear yr + daysBeforeMonth yr mo) * msPerDay)" .
  have "firstDay yr mo = InvalidDate"
  proof (cases "275760 < yr")
    case True
    then have "dayFromYear 275761 \<le> dayFromYear yr" by (intro dayFromYear_mono) simp
    then have "100000000 < dayFromYear yr + daysBeforeMonth yr mo"
      using daysBeforeMonth_range [of yr mo] by (simp add: dayFromYear_after)
    then show ?thesis unfolding first by (rule timeClip_late)
  next
    case False
    with assms(1) have "yr + 1 \<le> -271821" by simp
    then have "dayFromYear (yr + 1) \<le> dayFromYear (-271821)" by (rule dayFromYear_mono)
    then have "dayFromYear yr + daysBeforeMonth yr mo < - 100000000"
      using daysBeforeMonth_range [of yr mo] dayFromYear_Suc [of yr] daysInYear_ge [of yr]
      by (simp add: dayFromYear_before)
    then show ?thesis unfolding first by (rule timeClip_early)
  qed
  then show ?thesis by (simp add: endColumn_def offset_def getDay_def)
qed

text \<open>
  The days of a month, as the layout computes them, are those of the Gregorian rule, in every
  year all of whose days are dates.
\<close>

lemma daysInMonth_gregorian:
  assumes "-271820 \<le> yr" and "yr \<le> 275759" and "0 \<le> mo" and "mo < 12"
  shows "daysInMonth yr mo
    = Some (monthLength (if 0 \<le> yr \<and> yr \<le> 99 then 1900 + yr else yr) mo)"
proof -
  define y where "y = (if 0 \<le> yr \<and> yr \<le> 99 then 1900 + yr else yr)"
  define n where "n = makeDay y mo (monthLength y mo)"
  have y: "-271820 \<le> y" "y + 1 \<le> 275760" using assms(1,2) by (simp_all add: y_def)
  have len: "1 \<le> monthLength y mo" "monthLength y mo \<le> 31"
    using leapDays_range [of y] by (simp_all add: monthLength_def)
  have before: "0 \<le> daysBeforeMonth y mo" using daysBeforeMonth_range [of y mo] by simp
  have n_eq: "n = dayFromYear y + (daysBeforeMonth y mo + monthLength y mo - 1)"
    unfolding n_def by (rule makeDay_in_year [OF assms(3,4)])
  have "yearFromDay n = y"
    unfolding n_def using civil_roundtrip [OF assms(3,4) len(1) order_refl] by simp
  then have "n < dayFromYear (y + 1)" using yearFromDay_upper [of n] by simp
  also have "\<dots> \<le> dayFromYear 275760" using y(2) by (rule dayFromYear_mono)
  finally have hi: "n \<le> 100000000" by (simp add: dayFromYear_last)
  have "dayFromYear (-271820) \<le> dayFromYear y" using y(1) by (rule dayFromYear_mono)
  then have lo: "- 100000000 \<le> n"
    using len before by (simp add: n_eq dayFromYear_first)
  have "newDate yr (mo + 1) 0 = timeClip (n * msPerDay)"
    using last_day_of_month [OF assms(3,4), of y] by (simp add: newDate_def y_def n_def)
  also have "\<dots> = TimeValue (n * msPerDay)"
    using lo hi by (intro timeClip_day) simp
  finally have "daysInMonth yr mo = Some (dateFromDay n)"
    by (simp add: daysInMonth_def getDate_def dayOf_midnight del: dayOf.simps)
  moreover have "dateFromDay n = monthLength y mo"
    unfolding n_def using civil_roundtrip [OF assms(3,4) len(1) order_refl] by simp
  ultimately show ?thesis by (simp add: y_def)
qed

lemma calculateMaxColumns_first_year: "calculateMaxColumns (-271821) = 37"
  by code_simp

text \<open>The length of February, in leap years and in others.\<close>

lemma daysInMonth_february:
  "daysInMonth 2024 1 = Some 29 \<and> daysInMonth 2023 1 = Some 28
   \<and> daysInMonth 2000 1 = Some 29 \<and> daysInMonth 1900 1 = Some 28"
  by code_simp

lemma calculateMaxColumns_range:
  "(-271821 \<le> yr \<and> yr \<le> 275760
      \<longrightarrow> 31 \<le> calculateMaxColumns yr \<and> calculateMaxColumns yr \<le> 37)
   \<and> (yr < -271821 \<or> 275760 < yr \<longrightarrow> calculateMaxColumns yr = 0)"
proof (rule conjI; rule impI)
  assume range: "-271821 \<le> yr \<and> yr \<le> 275760"
  show "31 \<le> calculateMaxColumns yr \<and> calculateMaxColumns yr \<le> 37"
  proof (cases "yr = -271821")
    case True
    then show ?thesis by (simp add: calculateMaxColumns_first_year)
  next
    case False
    with range have "-271820 \<le> yr" "yr \<le> 275760" by simp_all
    from january_endColumn [OF this] obtain e
      where e: "endColumn yr 0 = Some e" "31 \<le> e" by blast
    from calculateMaxColumns_january [OF e(1)] e(2) calculateMaxColumns_upper [of yr]
    show ?thesis by simp
  qed
next
  assume "yr < -271821 \<or> 275760 < yr"
  then have "\<forall>m. 0 \<le> m \<and> m < 12 \<longrightarrow> endColumn yr m = None"
    by (simp add: endColumn_no_dates)
  then show "calculateMaxColumns yr = 0"
    unfolding calculateMaxColumns_def by (rule maxColumnsFrom_no_dates) simp
qed

text \<open>
  Claim C2, amended. For every year from -271821 to 275760, the years in which the host has
  dates, the column count computed for the year is at least 31 and at most 37. For every
  other year it is 0. (The claim gives the bounds for every year.) In every year the count
  is the maximum of the sums of offset and days over the months where the sum is a number:
  no such sum exceeds it, and it is one of them unless it is 0.
\<close>

theorem maxColumns_bounds:
  "(-271821 \<le> yr \<and> yr \<le> 275760
      \<longrightarrow> 31 \<le> calculateMaxColumns yr \<and> calculateMaxColumns yr \<le> 37)
   \<and> (yr < -271821 \<or> 275760 < yr \<longrightarrow> calculateMaxColumns yr = 0)
   \<and> (\<forall>m e. 0 \<le> m \<and> m < 12 \<and> addNum (offset yr m) (daysInMonth yr m) = Some e
        \<longrightarrow> e \<le> calculateMaxColumns yr)
   \<and> (calculateMaxColumns yr = 0
       \<or> (\<exists>m. 0 \<le> m \<and> m < 12
            \<and> addNum (offset yr m) (daysInMonth yr m) = Some (calculateMaxColumns yr)))"
proof -
  have "e \<le> calculateMaxColumns yr"
    if "0 \<le> m" "m < 12" "addNum (offset yr m) (daysInMonth yr m) = Some e" for m e
    using that maxColumnsFrom_covers [of 0 m yr e 0]
    by (simp add: calculateMaxColumns_def endColumn_def)
  moreover have "calculateMaxColumns yr = 0
       \<or> (\<exists>m. 0 \<le> m \<and> m < 12
            \<and> addNum (offset yr m) (daysInMonth yr m) = Some (calculateMaxColumns yr))"
    using maxColumnsFrom_attained [of 0 yr 0]
    by (simp add: calculateMaxColumns_def endColumn_def)
  ultimately show ?thesis using calculateMaxColumns_range [of yr] by blast
qed

text \<open>
  The years 2024 and 275760 have 37 and 36 columns, the year 300000 has none. In 2024,
  February takes 32 columns and December, which starts on a Sunday, takes all 37.
\<close>

theorem maxColumns_bounds_witness:
  "calculateMaxColumns 2024 = 37 \<and> calculateMaxColumns 275760 = 36
   \<and> calculateMaxColumns 300000 = 0
   \<and> addNum (offset 2024 1) (daysInMonth 2024 1) = Some 32
   \<and> addNum (offset 2024 11) (daysInMonth 2024 11) = Some 37"
proof -
  have feb: "addNum (offset 2024 1) (daysInMonth 2024 1) = Some 32" by code_simp
  have dec: "addNum (offset 2024 11) (daysInMonth 2024 11) = Some 37" by code_simp
  note y2024 = maxColumns_bounds [of 2024]
  from y2024 have "calculateMaxColumns 2024 \<le> 37" by simp
  moreover from y2024 have "\<forall>m e. 0 \<le> m \<and> m < 12
      \<and> addNum (offset 2024 m) (daysInMonth 2024 m) = Some e \<longrightarrow> e \<le> calculateMaxColumns 2024"
    by (elim conjE)
  then have "37 \<le> calculateMaxColumns 2024" using dec by (elim allE [of _ 11] allE [of _ 37]) simp
  ultimately have a: "calculateMaxColumns 2024 = 37" by simp
  have b: "calculateMaxColumns 300000 = 0" using maxColumns_bounds [of 300000] by simp
  have c: "calculateMaxColumns 275760 = 36" by code_simp
  from a b c feb dec show ?thesis by simp
qed

text \<open>
  Claim C2 as stated fails at the year 275761: none of its days is a valid date, every
  comparison of the loop is false, and the count stays 0.
\<close>

theorem maxColumns_unrepresentable_year:
  "calculateMaxColumns 275761 = 0 \<and> \<not> 31 \<le> calculateMaxColumns 275761"
  by code_simp

text \<open>
  The first day of a month is the one day with the year, the month and the date 1, and
  \<open>firstDay\<close> is this day of the year that the host reads, when it is a date.
\<close>

lemma first_of_month_unique:
  assumes "0 \<le> mo" and "mo < 12"
    and "yearFromDay n = y" and "monthFromDay n = mo" and "dateFromDay n = 1"
  shows "n = makeDay y mo 1"
proof -
  have "dayWithinYear n = daysBeforeMonth y mo"
    using assms(3-5) by (simp add: dateFromDay_def)
  then have "n = dayFromYear y + daysBeforeMonth y mo"
    using assms(3) by (simp add: dayWithinYear_def)
  then show ?thesis by (simp add: makeDay_in_year [OF assms(1,2)])
qed

lemma firstDay_hostYear: "firstDay yr mo = timeClip (makeDay (hostYear yr) mo 1 * msPerDay)"
  by (simp add: firstDay_def newDate_def hostYear_def Let_def)

text \<open>
  Claim C3, amended. Take a month, from 0 to 11, and a year, and let \<open>n\<close> be day 1 of this
  month of the year that the host reads: the year itself, but 1900 + year for a year from
  0 to 99. When \<open>n\<close> is a valid date, at most 100000000 days from the epoch, the offset is the
  native weekday of \<open>n\<close> (from 0, Sunday, to 6), plus 6, modulo 7: it is from 0 to 6, it is 6
  when \<open>n\<close> is a Sunday and 0 when \<open>n\<close> is a Monday. When \<open>n\<close> is not a valid date, the offset
  is \<open>NaN\<close>. (The claim says this of day 1 of the month of every year.)
\<close>

theorem offset_remap:
  assumes "0 \<le> mo" and "mo < 12"
    and "yearFromDay n = hostYear yr" and "monthFromDay n = mo" and "dateFromDay n = 1"
  shows "(\<bar>n\<bar> \<le> 100000000 \<longrightarrow>
            offset yr mo = Some ((weekDay n + 6) mod 7)
          \<and> 0 \<le> weekDay n \<and> weekDay n \<le> 6
          \<and> 0 \<le> (weekDay n + 6) mod 7 \<and> (weekDay n + 6) mod 7 \<le> 6
          \<and> (weekDay n = 0 \<longrightarrow> offset yr mo = Some 6)
          \<and> (weekDay n = 1 \<longrightarrow> offset yr mo = Some 0))
       \<and> (100000000 < \<bar>n\<bar> \<longrightarrow> offset yr mo = None)"
proof -
  have n: "n = makeDay (hostYear yr) mo 1"
    using assms by (rule first_of_month_unique)
  have first: "firstDay yr mo = timeClip (n * msPerDay)"
    by (simp add: firstDay_hostYear n)
  have m7: "0 \<le> (weekDay n + 6) mod 7 \<and> (weekDay n + 6) mod 7 \<le> 6"
    using pos_mod_bound [of 7 "weekDay n + 6"] by simp
  have valid: "offset yr mo = Some ((weekDay n + 6) mod 7)" if "\<bar>n\<bar> \<le> 100000000"
    using timeClip_day [OF that]
    by (simp add: offset_def first getDay_def dayOf_midnight del: dayOf.simps)
  have invalid: "offset yr mo = None" if "100000000 < \<bar>n\<bar>"
  proof -
    have "timeClip (n * msPerDay) = InvalidDate"
      using that timeClip_late [of n] timeClip_early [of n] by (cases "0 \<le> n") simp_all
    then show ?thesis by (simp add: offset_def first getDay_def)
  qed
  show ?thesis
    using valid invalid m7 weekDay_range [of n] by auto
qed

text \<open>
  In 2024, September starts on a Sunday, July on a Monday and June on a Saturday. The year
  50 is read as 1950, whose May starts on a Monday. January 275761 has no first day.
\<close>

theorem offset_remap_witness:
  "weekDay (makeDay 2024 8 1) = 0 \<and> offset 2024 8 = Some 6
   \<and> weekDay (makeDay 2024 6 1) = 1 \<and> offset 2024 6 = Some 0
   \<and> weekDay (makeDay 2024 5 1) = 6 \<and> offset 2024 5 = Some 5
   \<and> weekDay (makeDay 1950 4 1) = 1 \<and> offset 50 4 = Some 0
   \<and> offset 275761 0 = None"
proof -
  have days: "makeDay 2024 8 1 = 19967" "makeDay 2024 6 1 = 19905" "makeDay 2024 5 1 = 19875"
    "makeDay 1950 4 1 = - 7185" "makeDay 275761 0 1 = 100000110"
    by code_simp+
  have years: "hostYear 2024 = 2024" "hostYear 50 = 1950" "hostYear 275761 = 275761"
    by (simp_all add: hostYear_def)
  have a: "yearFromDay 19967 = 2024" "monthFromDay 19967 = 8" "dateFromDay 19967 = 1"
    "weekDay 19967 = 0"
    by code_simp+
  have b: "yearFromDay 19905 = 2024" "monthFromDay 19905 = 6" "dateFromDay 19905 = 1"
    "weekDay 19905 = 1"
    by code_simp+
  have c: "yearFromDay 19875 = 2024" "monthFromDay 19875 = 5" "dateFromDay 19875 = 1"
    "weekDay 19875 = 6"
    by code_simp+
  have d: "yearFromDay (- 7185) = 1950" "monthFromDay (- 7185) = 4" "dateFromDay (- 7185) = 1"
    "weekDay (- 7185) = 1"
    by code_simp+
  have e: "yearFromDay 100000110 = 275761" "monthFromDay 100000110 = 0"
    "dateFromDay 100000110 = 1"
    by code_simp+
  have "offset 2024 8 = Some 6"
    using offset_remap [of 8 19967 2024] a years by simp
  moreover have "offset 2024 6 = Some 0"
    using offset_remap [of 6 19905 2024] b years by simp
  moreover have "offset 2024 5 = Some 5"
    using offset_remap [of 5 19875 2024] c years by simp
  moreover have "offset 50 4 = Some 0"
    using offset_remap [of 4 "- 7185" 50] d years by simp
  moreover have "offset 275761 0 = None"
    using offset_remap [of 0 100000110 275761] e years by simp
  ultimately show ?thesis using days a b c d by simp
qed

text \<open>
  Claim C3 as stated fails at May of the year 50 and at January 275761. The first of May 50
  is a Sunday, and the offset computed for the year 50 is 0, that of May 1950, not 6. The
  first of January 275761 is an Invalid Date, and the offset is \<open>NaN\<close>, not a number from 0
  to 6.
\<close>

theorem offset_other_year_or_none:
  "yearFromDay (makeDay 50 4 1) = 50 \<and> monthFromDay (makeDay 50 4 1) = 4
   \<and> dateFromDay (makeDay 50 4 1) = 1 \<and> weekDay (makeDay 50 4 1) = 0
   \<and> offset 50 4 = Some 0 \<and> offset 50 4 \<noteq> Some 6
   \<and> getDay (newDate 275761 0 1) = None \<and> offset 275761 0 = None
   \<and> offset 275761 0 \<notin> set (map Some [0, 1, 2, 3, 4, 5, 6])"
  by code_simp

section \<open>The date key: properties\<close>

lemma digitChar_0: "digitChar 0 = CHR ''0''"
  by (simp add: digitChar_def)

lemma digitsOf_small: "n < 10 \<Longrightarrow> digitsOf n = [digitChar n]"
  by (simp add: digitsOf.simps)

lemma digitsOf_two:
  "10 \<le> n \<Longrightarrow> n < 100 \<Longrightarrow> digitsOf n = [digitChar (n div 10), digitChar (n mod 10)]"
  by (subst digitsOf.simps) (simp add: digitsOf_small)

lemma padStart_twoDigits:
  assumes "0 \<le> k" and "k < 100"
  shows "padStart 2 CHR ''0'' (numToString (Some k)) = twoDigits k"
proof (cases "k < 10")
  case True
  with assms show ?thesis
    by (simp add: numToString_def padStart_def twoDigits_def digitsOf_small digitChar_0)
next
  case False
  with assms show ?thesis
    by (simp add: numToString_def padStart_def twoDigits_def digitsOf_two)
qed

lemma length_digitsOf_gt: "10 ^ k \<le> n \<Longrightarrow> k < length (digitsOf n)"
proof (induction k arbitrary: n)
  case 0
  show ?case by (subst digitsOf.simps) simp
next
  case (Suc k)
  then have "10 ^ k \<le> n div 10" by simp
  moreover have "10 \<le> n"
  proof -
    have "(10::nat) = 10 * 1" by simp
    also have "\<dots> \<le> 10 * 10 ^ k" by (rule mult_le_mono2) simp
    also have "\<dots> \<le> n" using Suc.prems by simp
    finally show ?thesis .
  qed
  ultimately show ?case
    using Suc.IH [of "n div 10"] by (subst digitsOf.simps) simp
qed

lemma length_digitsOf_le: "n < 10 ^ k \<Longrightarrow> 0 < k \<Longrightarrow> length (digitsOf n) \<le> k"
proof (induction k arbitrary: n)
  case 0
  then show ?case by simp
next
  case (Suc k)
  show ?case
  proof (cases "n < 10")
    case True
    then show ?thesis by (simp add: digitsOf_small)
  next
    case False
    with Suc.prems have k: "0 < k" by (cases k) auto
    from Suc.prems have "n div 10 < 10 ^ k" by (simp add: less_mult_imp_div_less mult.commute)
    from Suc.IH [OF this k] False show ?thesis
      by (subst digitsOf.simps) simp
  qed
qed

lemma length_digitsOf_4: "length (digitsOf n) = 4 \<longleftrightarrow> 1000 \<le> n \<and> n \<le> 9999"
proof -
  have a: "n < 1000 \<Longrightarrow> length (digitsOf n) \<le> 3"
    using length_digitsOf_le [of n 3] by simp
  have b: "1000 \<le> n \<Longrightarrow> 3 < length (digitsOf n)"
    using length_digitsOf_gt [of 3 n] by simp
  have c: "n < 10000 \<Longrightarrow> length (digitsOf n) \<le> 4"
    using length_digitsOf_le [of n 4] by simp
  have d: "10000 \<le> n \<Longrightarrow> 4 < length (digitsOf n)"
    using length_digitsOf_gt [of 4 n] by simp
  show ?thesis
    using a b c d by (cases "n < 1000"; cases "n < 10000") auto
qed

lemma digitChar_digit: "n < 10 \<Longrightarrow> digitChar n \<in> set ''0123456789''"
  unfolding digitChar_def by (rule nth_mem) simp

lemma digitsOf_digits: "list_all (\<lambda>c. c \<in> set ''0123456789'') (digitsOf n)"
proof (induction n rule: digitsOf.induct)
  case (1 n)
  show ?case
  proof (cases "n < 10")
    case True
    then show ?thesis using digitChar_digit [of n] by (simp add: digitsOf_small)
  next
    case False
    have "n mod 10 < 10" by simp
    with "1.IH" [OF False] False digitChar_digit [of "n mod 10"] show ?thesis
      by (subst digitsOf.simps) simp
  qed
qed

lemma fourDigits_year: "fourDigits (numToString (Some y)) \<longleftrightarrow> 1000 \<le> y \<and> y \<le> 9999"
proof (cases "y < 0")
  case True
  then show ?thesis by (simp add: fourDigits_def numToString_def)
next
  case False
  then have "fourDigits (numToString (Some y)) \<longleftrightarrow> length (digitsOf (nat y)) = 4"
    using digitsOf_digits [of "nat y"] by (simp add: fourDigits_def numToString_def)
  with False show ?thesis by (simp add: length_digitsOf_4) linarith
qed

lemma getMonth_range: "getMonth d = Some m \<Longrightarrow> 0 \<le> m \<and> m \<le> 11"
  using monthFromDay_range by (cases d) (auto simp: getMonth_def)

text \<open>
  Claim C7, amended. The key of a valid date is the year's numeral as it is, without
  padding, then a hyphen, the month in exactly two digits, a hyphen and the day in exactly
  two digits. The year part is four digits exactly when the year is from 1000 to 9999.
  (The claim says four digits for all representable years.)
\<close>

theorem dateKey_format:
  assumes "getFullYear date = Some y" and "getMonth date = Some m" and "getDate date = Some k"
  shows "dateKey date = numToString (Some y) @ ''-'' @ twoDigits (m + 1) @ ''-'' @ twoDigits k
     \<and> 1 \<le> m + 1 \<and> m + 1 \<le> 12 \<and> 1 \<le> k \<and> k \<le> 31
     \<and> (fourDigits (numToString (Some y)) \<longleftrightarrow> 1000 \<le> y \<and> y \<le> 9999)"
proof -
  from getMonth_range [OF assms(2)] have m: "0 \<le> m + 1" "m + 1 < 100" "1 \<le> m + 1" "m + 1 \<le> 12"
    by simp_all
  from getDate_range [OF assms(3)] have k: "0 \<le> k" "k < 100" "1 \<le> k" "k \<le> 31"
    by simp_all
  have "dateKey date = numToString (Some y) @ ''-'' @ twoDigits (m + 1) @ ''-'' @ twoDigits k"
    using padStart_twoDigits [OF m(1,2)] padStart_twoDigits [OF k(1,2)]
    by (simp add: dateKey_def assms)
  with m k fourDigits_year [of y] show ?thesis by simp
qed

text \<open>The keys of 15 March 2024 and of 31 December 999.\<close>

theorem dateKey_format_witness:
  "dateKey (newDate 2024 2 15) = ''2024-03-15'' \<and> fourDigits ''2024''
   \<and> dateKey (newDate 999 11 31) = ''999-12-31'' \<and> \<not> fourDigits ''999''"
proof -
  have a: "getFullYear (newDate 2024 2 15) = Some 2024" "getMonth (newDate 2024 2 15) = Some 2"
    "getDate (newDate 2024 2 15) = Some 15" by code_simp+
  have b: "getFullYear (newDate 999 11 31) = Some 999" "getMonth (newDate 999 11 31) = Some 11"
    "getDate (newDate 999 11 31) = Some 31" by code_simp+
  have c: "numToString (Some 2024) = ''2024''" "twoDigits 3 = ''03''" "twoDigits 15 = ''15''"
    "numToString (Some 999) = ''999''" "twoDigits 12 = ''12''" "twoDigits 31 = ''31''"
    by code_simp+
  from dateKey_format [OF a] dateKey_format [OF b] c show ?thesis by simp
qed

text \<open>
  Claim C7 as stated fails at 1 January 999: the year is written in three digits, and the
  key has nine characters.
\<close>

theorem dateKey_year_not_padded:
  "dateKey (newDate 999 0 1) = ''999-01-01'' \<and> length (dateKey (newDate 999 0 1)) = 9
   \<and> \<not> fourDigits (numToString (getFullYear (newDate 999 0 1)))"
  by code_simp

section \<open>The label settings: properties\<close>

lemma split_comma_nonempty: "split_comma v \<noteq> []"
  by (induction v) (auto split: list.splits)

lemma split_comma_no_comma: "w \<in> set (split_comma v) \<Longrightarrow> CHR '','' \<notin> set w"
  by (induction v arbitrary: w) (auto split: list.splits if_splits)

lemma length_split_comma: "length (split_comma v) = Suc (length (filter (\<lambda>c. c = CHR '','') v))"
  by (induction v) (auto split: list.splits simp: split_comma_nonempty)

lemma parseLabels_nonempty: "w \<in> set (parseLabels v) \<Longrightarrow> w \<noteq> []"
  by (auto simp: parseLabels_def)

text \<open>
  Claim C9. A change of the weekday labels replaces the stored labels when the input,
  split at commas, trimmed and without its empty entries, has exactly 7 entries, and a
  change of the month labels when it has exactly 12; on any other input the settings stay
  as they were. So seven weekday labels and twelve month labels stay seven and twelve.
\<close>

theorem label_settings_guard:
  "onWeekdayLabelsChange settings v
     = (if length (parseLabels v) = 7 then settings\<lparr>weekdayLabels := parseLabels v\<rparr> else settings)
   \<and> onMonthLabelsChange settings v
     = (if length (parseLabels v) = 12 then settings\<lparr>monthLabels := parseLabels v\<rparr> else settings)
   \<and> (length (parseLabels v) \<noteq> 7 \<longrightarrow> onWeekdayLabelsChange settings v = settings)
   \<and> (length (parseLabels v) \<noteq> 12 \<longrightarrow> onMonthLabelsChange settings v = settings)
   \<and> (length (weekdayLabels settings) = 7
        \<longrightarrow> length (weekdayLabels (onWeekdayLabelsChange settings v)) = 7)
   \<and> (length (monthLabels settings) = 12
        \<longrightarrow> length (monthLabels (onMonthLabelsChange settings v)) = 12)
   \<and> parseLabels v = filter (\<lambda>s. s \<noteq> []) (map trim (split_comma v))"
  by (simp add: onWeekdayLabelsChange_def onMonthLabelsChange_def Let_def parseLabels_def)

text \<open>
  Seven and twelve labels are stored; three labels, and seven labels given for the months,
  are not.
\<close>

theorem label_settings_guard_witness:
  "weekdayLabels (onWeekdayLabelsChange (sampleSettings [] True) ''Mo, Tu ,We,Th,Fr,Sa,Su'')
     = [''Mo'', ''Tu'', ''We'', ''Th'', ''Fr'', ''Sa'', ''Su'']
   \<and> onWeekdayLabelsChange (sampleSettings [] True) ''Mo, Tu, We,, '' = sampleSettings [] True
   \<and> monthLabels (onMonthLabelsChange (sampleSettings [] True) ''Jan,Feb,Mrz,Apr,Mai,Jun,Jul,Aug,Sep,Okt,Nov,Dez'')
     = [''Jan'', ''Feb'', ''Mrz'', ''Apr'', ''Mai'', ''Jun'',
        ''Jul'', ''Aug'', ''Sep'', ''Okt'', ''Nov'', ''Dez'']
   \<and> onMonthLabelsChange (sampleSettings [] True) ''Mo, Tu ,We,Th,Fr,Sa,Su''
     = sampleSettings [] True
   \<and> length (weekdayLabels (onWeekdayLabelsChange (sampleSettings [] True) ''Mo, Tu, We,, '')) = 7
   \<and> length (monthLabels
        (onMonthLabelsChange (sampleSettings [] True) ''Mo, Tu ,We,Th,Fr,Sa,Su'')) = 12"
proof -
  let ?S = "sampleSettings [] True"
  have a: "parseLabels ''Mo, Tu ,We,Th,Fr,Sa,Su'' = [''Mo'', ''Tu'', ''We'', ''Th'', ''Fr'', ''Sa'', ''Su'']"
    by code_simp
  have b: "parseLabels ''Mo, Tu, We,, '' = [''Mo'', ''Tu'', ''We'']"
    by code_simp
  have c: "parseLabels ''Jan,Feb,Mrz,Apr,Mai,Jun,Jul,Aug,Sep,Okt,Nov,Dez''
      = [''Jan'', ''Feb'', ''Mrz'', ''Apr'', ''Mai'', ''Jun'',
        ''Jul'', ''Aug'', ''Sep'', ''Okt'', ''Nov'', ''Dez'']"
    by code_simp
  from label_settings_guard [of ?S "''Mo, Tu ,We,Th,Fr,Sa,Su''"]
    label_settings_guard [of ?S "''Mo, Tu, We,, ''"]
    label_settings_guard [of ?S "''Jan,Feb,Mrz,Apr,Mai,Jun,Jul,Aug,Sep,Okt,Nov,Dez''"]
  show ?thesis by (simp add: a b c sampleSettings_def)
qed

section \<open>The events of a day cell: properties\<close>

lemma filter_pills:
  "filter isEventEl (map (\<lambda>event. EventEl (t event) (g event)) evs @ map MoreEl ms)
     = map (\<lambda>event. EventEl (t event) (g event)) evs"
  by (induction evs) (simp_all add: isEventEl_def filter_empty_conv)

lemma filter_markers:
  "filter (\<lambda>c. \<not> isEventEl c) (map (\<lambda>event. EventEl (t event) (g event)) evs @ map MoreEl ms)
     = map MoreEl ms"
proof (induction evs)
  case Nil
  show ?case by (induction ms) (simp_all add: isEventEl_def)
next
  case (Cons e evs)
  then show ?case by (simp add: isEventEl_def)
qed

lemma renderDayEvents_Some:
  assumes "dayEvents \<noteq> []"
  shows "renderDayEvents dayEvents = Some
    (map (\<lambda>event. EventEl (take 10 (title event)) (eventFile event)) (take 3 dayEvents)
     @ map MoreEl (if 3 < length dayEvents
         then [CHR ''+'' # numToString (Some (int (length dayEvents) - 3))] else []))"
  using assms by (simp add: renderDayEvents_def)

lemma renderMonth_day_cells:
  assumes "DayCell key num weekend evs \<in> set (renderMonth events yr mo maxColumns)"
  shows "evs = renderDayEvents (dayEventsOf events key)"
  using assms
  by (auto simp: renderMonth_def dayCell_def Let_def split: option.splits)

text \<open>
  Claim C10. The events container of a day exists when the day has events. Its pills are
  those of the first three events of the day, each with the first 10 characters of the
  title, so there are at most three; the only other child is the marker \<open>+N\<close>, with \<open>N\<close>
  the number of events minus 3, present exactly when the day has more than three events.
  Every day cell of a month's row shows its day's events in this way.
\<close>

theorem day_cell_pills:
  "(renderDayEvents dayEvents = None \<longleftrightarrow> dayEvents = [])
   \<and> (\<forall>children. renderDayEvents dayEvents = Some children \<longrightarrow>
        filter isEventEl children
          = map (\<lambda>event. EventEl (take 10 (title event)) (eventFile event)) (take 3 dayEvents)
        \<and> length (filter isEventEl children) \<le> 3
        \<and> filter (\<lambda>c. \<not> isEventEl c) children
          = (if 3 < length dayEvents
             then [MoreEl (CHR ''+'' # numToString (Some (int (length dayEvents) - 3)))]
             else []))
   \<and> (\<forall>key num weekend evs.
        DayCell key num weekend evs \<in> set (renderMonth events yr mo maxColumns)
        \<longrightarrow> evs = renderDayEvents (dayEventsOf events key))"
proof (intro conjI allI impI)
  show "renderDayEvents dayEvents = None \<longleftrightarrow> dayEvents = []"
    by (simp add: renderDayEvents_def)
next
  fix children
  assume c: "renderDayEvents dayEvents = Some children"
  then have ne: "dayEvents \<noteq> []" by (auto simp: renderDayEvents_def)
  from renderDayEvents_Some [OF ne] c
  have children: "children =
    map (\<lambda>event. EventEl (take 10 (title event)) (eventFile event)) (take 3 dayEvents)
     @ map MoreEl (if 3 < length dayEvents
         then [CHR ''+'' # numToString (Some (int (length dayEvents) - 3))] else [])"
    by simp
  show "filter isEventEl children
      = map (\<lambda>event. EventEl (take 10 (title event)) (eventFile event)) (take 3 dayEvents)"
    unfolding children by (rule filter_pills)
  then show "length (filter isEventEl children) \<le> 3" by simp
  show "filter (\<lambda>c. \<not> isEventEl c) children
      = (if 3 < length dayEvents
         then [MoreEl (CHR ''+'' # numToString (Some (int (length dayEvents) - 3)))]
         else [])"
    unfolding children filter_markers by simp
next
  fix key num weekend evs
  assume "DayCell key num weekend evs \<in> set (renderMonth events yr mo maxColumns)"
  then show "evs = renderDayEvents (dayEventsOf events key)"
    by (rule renderMonth_day_cells)
qed

text \<open>
  Five events on a day give three pills and the marker \<open>+2\<close>; a title longer than ten
  characters is cut. In the sample vault, the cell of the first of January 2024 shows the
  two events of that day.
\<close>

theorem day_cell_pills_witness:
  "renderDayEvents (replicate 5 (newEvent noteMeeting (newDate 2024 0 1)))
     = Some [EventEl ''Quarterly '' noteMeeting, EventEl ''Quarterly '' noteMeeting,
             EventEl ''Quarterly '' noteMeeting, MoreEl ''+2'']
   \<and> filter isEventEl [EventEl ''Quarterly '' noteMeeting, EventEl ''Quarterly '' noteMeeting,
             EventEl ''Quarterly '' noteMeeting, MoreEl ''+2'']
     = [EventEl ''Quarterly '' noteMeeting, EventEl ''Quarterly '' noteMeeting,
        EventEl ''Quarterly '' noteMeeting]
   \<and> filter (\<lambda>c. \<not> isEventEl c) [EventEl ''Quarterly '' noteMeeting,
             EventEl ''Quarterly '' noteMeeting, EventEl ''Quarterly '' noteMeeting, MoreEl ''+2'']
     = [MoreEl ''+2'']
   \<and> renderDayEvents [] = None
   \<and> DayCell ''2024-01-01'' ''1'' False
          (Some [EventEl ''plan'' notePlan, EventEl ''plan'' notePlan])
        \<in> set (renderMonth (loadEvents sampleVault (sampleSettings ''Daily'' True)) 2024 0 37)
   \<and> renderDayEvents
        (dayEventsOf (loadEvents sampleVault (sampleSettings ''Daily'' True)) ''2024-01-01'')
     = Some [EventEl ''plan'' notePlan, EventEl ''plan'' notePlan]"
proof -
  let ?events = "loadEvents sampleVault (sampleSettings ''Daily'' True)"
  let ?pills = "Some [EventEl ''plan'' notePlan, EventEl ''plan'' notePlan]"
  have days: "daysInMonth 2024 0 = Some 31"
    by code_simp
  have first: "dayCell ?events 2024 0 1 = DayCell ''2024-01-01'' ''1'' False ?pills"
    by code_simp
  have "dayCell ?events 2024 0 1 \<in> set (map (dayCell ?events 2024 0) [1..31])"
    by simp
  then have "dayCell ?events 2024 0 1 \<in> set (renderMonth ?events 2024 0 37)"
    by (simp add: renderMonth_def days)
  then have cell: "DayCell ''2024-01-01'' ''1'' False ?pills \<in> set (renderMonth ?events 2024 0 37)"
    by (simp only: first)
  with day_cell_pills [of "[]" ?events 2024 0 37]
  have shown: "?pills = renderDayEvents (dayEventsOf ?events ''2024-01-01'')"
    by blast
  let ?evs = "replicate 5 (newEvent noteMeeting (newDate 2024 0 1))"
  let ?children = "[EventEl ''Quarterly '' noteMeeting, EventEl ''Quarterly '' noteMeeting,
             EventEl ''Quarterly '' noteMeeting, MoreEl ''+2'']"
  have r: "renderDayEvents ?evs = Some ?children"
    by code_simp
  have p: "map (\<lambda>event. EventEl (take 10 (title event)) (eventFile event)) (take 3 ?evs)
      = [EventEl ''Quarterly '' noteMeeting, EventEl ''Quarterly '' noteMeeting,
         EventEl ''Quarterly '' noteMeeting]"
    by code_simp
  have m: "(if 3 < length ?evs
             then [MoreEl (CHR ''+'' # numToString (Some (int (length ?evs) - 3)))]
             else []) = [MoreEl ''+2'']"
    by code_simp
  from day_cell_pills [of ?evs] r
  have "filter isEventEl ?children
          = map (\<lambda>event. EventEl (take 10 (title event)) (eventFile event)) (take 3 ?evs)"
    and "filter (\<lambda>c. \<not> isEventEl c) ?children
          = (if 3 < length ?evs
             then [MoreEl (CHR ''+'' # numToString (Some (int (length ?evs) - 3)))]
             else [])"
    by blast+
  moreover from day_cell_pills [of "[]"] have "renderDayEvents [] = None" by blast
  ultimately show ?thesis using r p m cell shown by simp
qed

end
